theory Spec2Isabelle
  imports Main "HOL-Library.Word"
begin

section \<open>The GroupAuth Dstack TEE agent (agent/app.py)\<close>

text \<open>
  The agent is a top-level script. It derives an identity from the Dstack key
  service, registers it on the GroupAuth contract unless it is a member already, and
  then polls the contract for \<open>MemberRegistered\<close> events for ever, sending the
  group secret to each new member.

  The script has no \<open>try\<close> statement: an exception raised by any call ends the
  process. The model makes that explicit. Every step returns the exception it raised,
  if any, together with the state it had reached.

  Everything outside the script is a parameter:
  \<^item> the network (key service, JSON-RPC node, contract) is a record \<open>env\<close> of oracles.
    Each oracle sees the list of external calls made so far, so its answer may change
    from one call to the next, and each may raise;
  \<^item> the cryptographic library functions are a record \<open>lib\<close> of pure functions.
\<close>

subsection \<open>Bytes and hexadecimal strings\<close>

type_synonym byte = "8 word"
type_synonym bytes = "byte list"

datatype error =
    IndexError
  | ValueError
  | OverflowError
  | AssertionError
  | TimeExhausted
  | ContractLogicError
  | ConnectionError
  | EncryptionError
  | BadSignature

text \<open>\<open>s.replace('0x', '')\<close>: every occurrence of \<open>0x\<close>, scanning from the left.\<close>

fun replace_0x :: "string \<Rightarrow> string" where
  "replace_0x (a # b # cs) =
     (if a = CHR ''0'' \<and> b = CHR ''x'' then replace_0x cs else a # replace_0x (b # cs))"
| "replace_0x cs = cs"

definition isspace :: "char \<Rightarrow> bool" where
  "isspace c = ((of_char c :: nat) = 32 \<or> (9 \<le> (of_char c :: nat) \<and> (of_char c :: nat) \<le> 13))"

definition digit_value :: "char \<Rightarrow> nat option" where
  "digit_value c =
     (let n = (of_char c :: nat) in
      if 48 \<le> n \<and> n \<le> 57 then Some (n - 48)
      else if 97 \<le> n \<and> n \<le> 102 then Some (n - 87)
      else if 65 \<le> n \<and> n \<le> 70 then Some (n - 55)
      else None)"

text \<open>
  \<open>bytes.fromhex\<close>: two hexadecimal digits per byte, ASCII white space allowed
  between bytes, \<open>ValueError\<close> on anything else.
\<close>

fun fromhex :: "string \<Rightarrow> error + bytes" where
  "fromhex [] = Inr []"
| "fromhex [c] = (if isspace c then Inr [] else Inl ValueError)"
| "fromhex (c # d # ds) =
     (if isspace c then fromhex (d # ds)
      else case (digit_value c, digit_value d) of
        (Some hi, Some lo) \<Rightarrow>
          (case fromhex ds of
             Inl e \<Rightarrow> Inl e
           | Inr bs \<Rightarrow> Inr (of_nat (16 * hi + lo) # bs))
      | _ \<Rightarrow> Inl ValueError)"

definition hex_char :: "nat \<Rightarrow> char" where
  "hex_char n = char_of (if n < 10 then 48 + n else 87 + n)"

text \<open>\<open>bytes.hex()\<close>: two lower-case digits per byte.\<close>

definition hex :: "bytes \<Rightarrow> string" where
  "hex bs = concat (map (\<lambda>b. [hex_char (unat b div 16), hex_char (unat b mod 16)]) bs)"

text \<open>
  \<open>str.encode()\<close>, that is UTF-8, on text whose code points are below 256, which is
  what a \<open>char\<close> holds: one byte below 128, two bytes from there on. (The lone surrogates
  on which \<open>str.encode()\<close> raises are not values of \<open>char\<close>.)
\<close>

definition utf8 :: "char \<Rightarrow> bytes" where
  "utf8 c =
     (let n = (of_char c :: nat) in
      if n < 128 then [of_nat n] else [of_nat (192 + n div 64), of_nat (128 + n mod 64)])"

definition encode :: "string \<Rightarrow> bytes" where
  "encode s = concat (map utf8 s)"

subsection \<open>The values exchanged with the outside\<close>

record key_response =
  key :: string
  signature_chain :: "string list"

record receipt =
  status :: nat
  gasUsed :: nat

text \<open>A \<open>MemberRegistered\<close> log entry: its three arguments and the block it is in.\<close>

record event =
  memberId :: bytes
  codeId :: bytes
  pubkey :: bytes
  blockNumber :: nat

text \<open>The tuple \<open>getMember\<close> returns: \<open>(codeId, pubkey, registeredAt)\<close>.\<close>

type_synonym member_info = "bytes \<times> bytes \<times> nat"

text \<open>
  \<open>dstack_proof\<close>, in the order of the source: message hash, message signature,
  app signature, KMS signature, derived public key, app public key, purpose.
\<close>

type_synonym dstack_proof = "bytes \<times> bytes \<times> bytes \<times> bytes \<times> bytes \<times> bytes \<times> string"

datatype contract_call =
    RegisterDstack bytes dstack_proof
  | Onboard bytes bytes bytes

text \<open>
  The dictionary passed to \<open>build_transaction\<close>, and the transaction it returns:
  the contract call, the three fields the script gives, and the fields the library
  fills in from the node (chain id, fees), kept as one opaque value.
\<close>

record tx_params =
  tx_from :: string
  tx_nonce :: nat
  tx_gas :: nat

record transaction =
  tx_call :: contract_call
  tx_given :: tx_params
  tx_filled :: "nat list"

text \<open>The external calls of the script, in the order it makes them.\<close>

datatype call =
    Info
  | GetKey string string
  | IsMember bytes
  | GetTransactionCount string
  | BuildTransaction contract_call tx_params
  | SendRawTransaction transaction
  | WaitForTransactionReceipt bytes
  | BlockNumber
  | GetLogs nat nat
  | GetMember bytes
  | Sleep int

text \<open>
  The oracles. \<open>contract_function\<close> is the construction of a call object by
  \<open>ga.functions.registerDstack(...)\<close> or \<open>ga.functions.onboard(...)\<close>, which checks the
  arguments against the ABI and makes no request; \<open>serve\<close> is the binding of the health
  endpoint's socket at line 100. Neither depends on the calls made so far.
\<close>

record env =
  contract_function :: "contract_call \<Rightarrow> error option"
  serve :: "error option"
  info :: "call list \<Rightarrow> error + string"
  get_key :: "call list \<Rightarrow> string \<Rightarrow> string \<Rightarrow> error + key_response"
  isMember :: "call list \<Rightarrow> bytes \<Rightarrow> error + bool"
  get_transaction_count :: "call list \<Rightarrow> string \<Rightarrow> error + nat"
  build_transaction :: "call list \<Rightarrow> contract_call \<Rightarrow> tx_params \<Rightarrow> error + nat list"
  send_raw_transaction :: "call list \<Rightarrow> transaction \<Rightarrow> error + bytes"
  wait_for_transaction_receipt :: "call list \<Rightarrow> bytes \<Rightarrow> error + receipt"
  block_number :: "call list \<Rightarrow> error + nat"
  get_logs :: "call list \<Rightarrow> nat \<Rightarrow> nat \<Rightarrow> error + event list"
  getMember :: "call list \<Rightarrow> bytes \<Rightarrow> error + member_info"
  ecies_encrypt :: "call list \<Rightarrow> bytes \<Rightarrow> bytes \<Rightarrow> error + bytes"

text \<open>
  The environment variables, as lines 13 to 16 read them when the script starts. A
  missing address or a poll interval that is not an integer ends the script there,
  before any of the calls below.
\<close>

record config =
  RPC_URL :: string
  GROUPAUTH_ADDRESS :: string
  GROUP_SECRET :: string
  POLL_INTERVAL :: int

text \<open>What the start of the script leaves in its global variables.\<close>

record agent =
  app_id :: string
  acct_address :: string
  derived_key :: bytes
  derived_pubkey :: bytes
  code_id :: bytes
  dstack_proof :: dstack_proof
  my_member_id :: bytes

subsection \<open>Sending a transaction\<close>

text \<open>
  Lines 76 to 81 and 119 to 124 are the same sequence: construct the call, read the
  nonce, build the transaction, sign it, send it, wait for its receipt. Signing is local
  and deterministic; the log keeps the transaction that was signed and sent.
\<close>

definition transact ::
  "env \<Rightarrow> string \<Rightarrow> contract_call \<Rightarrow> nat \<Rightarrow> call list \<Rightarrow> (error + bytes \<times> receipt) \<times> call list" where
  "transact e addr c gas h =
     (case contract_function e c of
        Some x \<Rightarrow> (Inl x, h)
      | None \<Rightarrow>
          (let h1 = h @ [GetTransactionCount addr] in
           case get_transaction_count e h addr of
             Inl x \<Rightarrow> (Inl x, h1)
           | Inr nonce \<Rightarrow>
               (let given = \<lparr>tx_from = addr, tx_nonce = nonce, tx_gas = gas\<rparr>;
                    h2 = h1 @ [BuildTransaction c given] in
                case build_transaction e h1 c given of
                  Inl x \<Rightarrow> (Inl x, h2)
                | Inr filled \<Rightarrow>
                    (let tx = \<lparr>tx_call = c, tx_given = given, tx_filled = filled\<rparr>;
                         h3 = h2 @ [SendRawTransaction tx] in
                     case send_raw_transaction e h2 tx of
                       Inl x \<Rightarrow> (Inl x, h3)
                     | Inr tx_hash \<Rightarrow>
                         (let h4 = h3 @ [WaitForTransactionReceipt tx_hash] in
                          case wait_for_transaction_receipt e h3 tx_hash of
                            Inl x \<Rightarrow> (Inl x, h4)
                          | Inr r \<Rightarrow> (Inr (tx_hash, r), h4))))))"

subsection \<open>Start-up (lines 26 to 83)\<close>

text \<open>
  The library functions the script calls on local data. \<open>from_key\<close> gives the
  address of \<open>Account.from_key\<close>; \<open>to_compressed_bytes\<close> is
  \<open>keys.PrivateKey(k).public_key.to_compressed_bytes()\<close>;
  \<open>recover_public_key_from_msg_hash\<close> is \<open>keys.Signature(sig)\<close> followed by the
  recovery, giving the compressed bytes and the checksum address of the recovered key.
  Those that validate their argument may raise.
\<close>

record lib =
  from_key :: "bytes \<Rightarrow> error + string"
  to_compressed_bytes :: "bytes \<Rightarrow> error + bytes"
  keccak :: "bytes \<Rightarrow> bytes"
  recover_public_key_from_msg_hash :: "bytes \<Rightarrow> bytes \<Rightarrow> error + bytes \<times> string"
  unsafe_sign_hash :: "bytes \<Rightarrow> bytes \<Rightarrow> bytes"
  to_checksum_address :: "string \<Rightarrow> error + string"

text \<open>
  \<open>Web3.solidity_keccak(["bytes"], [v])\<close>: Keccak-256 of the packed encoding of
  one value of type \<open>bytes\<close>, which is the value itself.
\<close>

definition solidity_keccak_bytes :: "lib \<Rightarrow> bytes \<Rightarrow> bytes" where
  "solidity_keccak_bytes l v = keccak l v"

text \<open>Line 33: the key as bytes, cut to its first 32.\<close>

definition parse_derived_key :: "string \<Rightarrow> error + bytes" where
  "parse_derived_key k =
     (case fromhex (replace_0x k) of
        Inl x \<Rightarrow> Inl x
      | Inr bs \<Rightarrow> Inr (take 32 bs))"

text \<open>Lines 37 and 38: the two links of the signature chain, by index.\<close>

definition parse_signature_chain :: "string list \<Rightarrow> error + bytes \<times> bytes" where
  "parse_signature_chain chain =
     (case chain of
        [] \<Rightarrow> Inl IndexError
      | s0 # rest \<Rightarrow>
          (case fromhex (replace_0x s0) of
             Inl x \<Rightarrow> Inl x
           | Inr app_sig \<Rightarrow>
               (case rest of
                  [] \<Rightarrow> Inl IndexError
                | s1 # _ \<Rightarrow>
                    (case fromhex (replace_0x s1) of
                       Inl x \<Rightarrow> Inl x
                     | Inr kms_sig \<Rightarrow> Inr (app_sig, kms_sig)))))"

text \<open>Lines 40 to 71, once the key and the chain are parsed.\<close>

definition assemble ::
  "lib \<Rightarrow> config \<Rightarrow> string \<Rightarrow> bytes \<Rightarrow> string \<Rightarrow> bytes \<Rightarrow> bytes \<Rightarrow> error + agent" where
  "assemble l cfg app_id_str derived_key_bytes address app_sig kms_sig =
     (case to_compressed_bytes l derived_key_bytes of
        Inl x \<Rightarrow> Inl x
      | Inr derived_pubkey_bytes \<Rightarrow>
          (let app_msg = ''ethereum:'' @ hex derived_pubkey_bytes;
               app_msg_hash = keccak l (encode app_msg) in
           case recover_public_key_from_msg_hash l app_sig app_msg_hash of
             Inl x \<Rightarrow> Inl x
           | Inr (app_pubkey, _) \<Rightarrow>
               (let message_hash = keccak l (encode ''groupauth-register'');
                    eth_hash = keccak l
                      (0x19 # encode ''Ethereum Signed Message:'' @ 0x0A # encode ''32''
                       @ message_hash);
                    message_sig = unsafe_sign_hash l derived_key_bytes eth_hash in
                case fromhex (replace_0x app_id_str) of
                  Inl x \<Rightarrow> Inl x
                | Inr app_id_bytes20 \<Rightarrow>
                    (let code_id_bytes = app_id_bytes20 @ replicate 12 0;
                         the_proof = (message_hash, message_sig, app_sig, kms_sig,
                                      derived_pubkey_bytes, app_pubkey, ''ethereum'');
                         kms_msg = encode ''dstack-kms-issued:'' @ app_id_bytes20 @ app_pubkey;
                         kms_msg_hash = keccak l kms_msg in
                     case recover_public_key_from_msg_hash l kms_sig kms_msg_hash of
                       Inl x \<Rightarrow> Inl x
                     | Inr kms_signer \<Rightarrow>
                         (case to_checksum_address l (GROUPAUTH_ADDRESS cfg) of
                            Inl x \<Rightarrow> Inl x
                          | Inr _ \<Rightarrow>
                              (let my_pubkey = derived_pubkey_bytes in
                               Inr \<lparr>app_id = app_id_str,
                                    acct_address = address,
                                    derived_key = derived_key_bytes,
                                    derived_pubkey = derived_pubkey_bytes,
                                    code_id = code_id_bytes,
                                    dstack_proof = the_proof,
                                    my_member_id = solidity_keccak_bytes l my_pubkey\<rparr>))))))"

text \<open>Lines 33 to 71: everything computed from the answer of the key service.\<close>

definition identity :: "lib \<Rightarrow> config \<Rightarrow> string \<Rightarrow> key_response \<Rightarrow> error + agent" where
  "identity l cfg app_id_str result =
     (case parse_derived_key (key result) of
        Inl x \<Rightarrow> Inl x
      | Inr derived_key_bytes \<Rightarrow>
          (case from_key l derived_key_bytes of
             Inl x \<Rightarrow> Inl x
           | Inr address \<Rightarrow>
               (case parse_signature_chain (signature_chain result) of
                  Inl x \<Rightarrow> Inl x
                | Inr (app_sig, kms_sig) \<Rightarrow>
                    assemble l cfg app_id_str derived_key_bytes address app_sig kms_sig)))"

text \<open>Lines 73 to 83: register unless the contract says the agent is a member.\<close>

definition register :: "env \<Rightarrow> agent \<Rightarrow> call list \<Rightarrow> error option \<times> call list" where
  "register e ag h =
     (let h1 = h @ [IsMember (my_member_id ag)] in
      case isMember e h (my_member_id ag) of
        Inl x \<Rightarrow> (Some x, h1)
      | Inr True \<Rightarrow> (None, h1)
      | Inr False \<Rightarrow>
          (case transact e (acct_address ag)
                  (RegisterDstack (code_id ag) (dstack_proof ag)) 500000 h1 of
             (Inl x, h2) \<Rightarrow> (Some x, h2)
           | (Inr (tx_hash, r), h2) \<Rightarrow>
               if status r = 1 then (None, h2) else (Some AssertionError, h2)))"

text \<open>Lines 26 to 83: the script up to the end of registration.\<close>

definition startup :: "env \<Rightarrow> lib \<Rightarrow> config \<Rightarrow> (error + agent) \<times> call list" where
  "startup e l cfg =
     (let h1 = [Info] in
      case info e [] of
        Inl x \<Rightarrow> (Inl x, h1)
      | Inr app_id_str \<Rightarrow>
          (let h2 = h1 @ [GetKey ''/groupauth'' ''ethereum''] in
           case get_key e h1 ''/groupauth'' ''ethereum'' of
             Inl x \<Rightarrow> (Inl x, h2)
           | Inr result \<Rightarrow>
               (case identity l cfg app_id_str result of
                  Inl x \<Rightarrow> (Inl x, h2)
                | Inr ag \<Rightarrow>
                    (case register e ag h2 of
                       (Some x, h3) \<Rightarrow> (Inl x, h3)
                     | (None, h3) \<Rightarrow> (Inr ag, h3)))))"

text \<open>The calls that go to the node or the contract, as opposed to the key service.\<close>

fun is_ledger_call :: "call \<Rightarrow> bool" where
  "is_ledger_call Info = False"
| "is_ledger_call (GetKey _ _) = False"
| "is_ledger_call (Sleep _) = False"
| "is_ledger_call _ = True"

subsection \<open>The watcher loop (lines 85 and 104 to 128)\<close>

record wstate =
  last_block :: nat
  onboarded :: "bytes set"
  calls :: "call list"

text \<open>Lines 115 to 126: the body of the \<open>for\<close> loop for an event that is not skipped.\<close>

definition onboard_member :: "env \<Rightarrow> config \<Rightarrow> agent \<Rightarrow> bytes \<Rightarrow> wstate \<Rightarrow> error option \<times> wstate" where
  "onboard_member e cfg ag new_id st =
     (let h = calls st; h1 = h @ [GetMember new_id] in
      case getMember e h new_id of
        Inl x \<Rightarrow> (Some x, st\<lparr>calls := h1\<rparr>)
      | Inr member_info \<Rightarrow>
          (let recipient_pubkey = fst (snd member_info) in
           case ecies_encrypt e h1 recipient_pubkey (encode (GROUP_SECRET cfg)) of
             Inl x \<Rightarrow> (Some x, st\<lparr>calls := h1\<rparr>)
           | Inr payload \<Rightarrow>
               (case transact e (acct_address ag)
                       (Onboard (my_member_id ag) new_id payload) 200000 h1 of
                  (Inl x, h2) \<Rightarrow> (Some x, st\<lparr>calls := h2\<rparr>)
                | (Inr (tx_hash, r), h2) \<Rightarrow>
                    (None, st\<lparr>onboarded := insert new_id (onboarded st), calls := h2\<rparr>))))"

text \<open>Lines 111 to 126: the \<open>for\<close> loop. An exception leaves the loop at once.\<close>

fun for_events :: "env \<Rightarrow> config \<Rightarrow> agent \<Rightarrow> event list \<Rightarrow> wstate \<Rightarrow> error option \<times> wstate" where
  "for_events e cfg ag [] st = (None, st)"
| "for_events e cfg ag (evt # events) st =
     (let new_id = memberId evt in
      if new_id = my_member_id ag \<or> new_id \<in> onboarded st
      then for_events e cfg ag events st
      else case onboard_member e cfg ag new_id st of
             (Some x, st') \<Rightarrow> (Some x, st')
           | (None, st') \<Rightarrow> for_events e cfg ag events st')"

text \<open>
  Line 128: \<open>time.sleep\<close> converts its argument to a signed 64-bit number of
  nanoseconds, raising \<open>OverflowError\<close> when it does not fit, and then raises
  \<open>ValueError\<close> on a negative length.
\<close>

definition sleep :: "config \<Rightarrow> wstate \<Rightarrow> error option \<times> wstate" where
  "sleep cfg st =
     (let ns = POLL_INTERVAL cfg * 1000000000 in
      if ns < - (2 ^ 63) \<or> 2 ^ 63 - 1 < ns then (Some OverflowError, st)
      else if POLL_INTERVAL cfg < 0 then (Some ValueError, st)
      else (None, st\<lparr>calls := calls st @ [Sleep (POLL_INTERVAL cfg)]\<rparr>))"

text \<open>Lines 108 to 128: one pass through the body of \<open>while True\<close>.\<close>

definition tick :: "env \<Rightarrow> config \<Rightarrow> agent \<Rightarrow> wstate \<Rightarrow> error option \<times> wstate" where
  "tick e cfg ag st =
     (let h = calls st; st1 = st\<lparr>calls := h @ [BlockNumber]\<rparr> in
      case block_number e h of
        Inl x \<Rightarrow> (Some x, st1)
      | Inr current_block \<Rightarrow>
          if current_block > last_block st then
            (let st2 = st1\<lparr>calls := calls st1 @ [GetLogs (last_block st + 1) current_block]\<rparr> in
             case get_logs e (calls st1) (last_block st + 1) current_block of
               Inl x \<Rightarrow> (Some x, st2)
             | Inr events \<Rightarrow>
                 (case for_events e cfg ag events st2 of
                    (Some x, st3) \<Rightarrow> (Some x, st3)
                  | (None, st3) \<Rightarrow> sleep cfg (st3\<lparr>last_block := current_block\<rparr>)))
          else sleep cfg st1)"

text \<open>
  \<open>while True\<close> never ends by itself; only an exception leaves it. \<open>watcher n\<close>
  runs at most \<open>n\<close> passes and stops at the first exception.
\<close>

fun watcher :: "nat \<Rightarrow> env \<Rightarrow> config \<Rightarrow> agent \<Rightarrow> wstate \<Rightarrow> error option \<times> wstate" where
  "watcher 0 e cfg ag st = (None, st)"
| "watcher (Suc n) e cfg ag st =
     (case tick e cfg ag st of
        (Some x, st') \<Rightarrow> (Some x, st')
      | (None, st') \<Rightarrow> watcher n e cfg ag st')"

text \<open>
  Lines 85 and 105: the dedup set starts empty and the watermark is the head of the chain.
\<close>

definition initial_state :: "env \<Rightarrow> call list \<Rightarrow> (error \<times> call list) + wstate" where
  "initial_state e h =
     (case block_number e h of
        Inl x \<Rightarrow> Inl (x, h @ [BlockNumber])
      | Inr b \<Rightarrow> Inr \<lparr>last_block = b, onboarded = {}, calls = h @ [BlockNumber]\<rparr>)"

text \<open>
  The whole script, with at most \<open>n\<close> passes of the loop: either it dies before the
  loop, with an exception and the calls made, or it reaches the loop.
\<close>

definition script ::
  "nat \<Rightarrow> env \<Rightarrow> lib \<Rightarrow> config \<Rightarrow> (error \<times> call list) + (error option \<times> wstate)" where
  "script n e l cfg =
     (case startup e l cfg of
        (Inl x, h) \<Rightarrow> Inl (x, h)
      | (Inr ag, h) \<Rightarrow>
          (case serve e of
             Some x \<Rightarrow> Inl (x, h)
           | None \<Rightarrow>
               (case initial_state e h of
                  Inl xh \<Rightarrow> Inl xh
                | Inr st \<Rightarrow> Inr (watcher n e cfg ag st))))"

text \<open>
  An exception that nothing catches ends the interpreter with exit status 1. The script
  cannot end in another way; a run that is still in the loop has no exit status.
\<close>

definition exit_status :: "(error \<times> call list) + (error option \<times> wstate) \<Rightarrow> nat option" where
  "exit_status out =
     (case out of
        Inl (x, h) \<Rightarrow> Some 1
      | Inr (Some x, st) \<Rightarrow> Some 1
      | Inr (None, st) \<Rightarrow> None)"

text \<open>Lines 89 to 93: the \<open>onboarded_count\<close> field of the health endpoint's answer.\<close>

definition onboarded_count :: "wstate \<Rightarrow> nat" where
  "onboarded_count st = card (onboarded st)"

text \<open>The transactions sent, and the block ranges fetched, in a list of calls.\<close>

fun sent :: "call list \<Rightarrow> transaction list" where
  "sent [] = []"
| "sent (SendRawTransaction tx # cs) = tx # sent cs"
| "sent (c # cs) = sent cs"

fun fetched :: "call list \<Rightarrow> (nat \<times> nat) list" where
  "fetched [] = []"
| "fetched (GetLogs a b # cs) = (a, b) # fetched cs"
| "fetched (c # cs) = fetched cs"

text \<open>The members to whom an \<open>onboard\<close> transaction was sent, in a list of calls.\<close>

definition onboard_targets :: "call list \<Rightarrow> bytes list" where
  "onboard_targets h =
     concat (map (\<lambda>tx. case tx_call tx of Onboard f t p \<Rightarrow> [t] | _ \<Rightarrow> []) (sent h))"

subsection \<open>Example runs\<close>

text \<open>
  Concrete inputs on which the theorems below are exercised: an agent with member id
  \<open>M0\<close>, standing at block 100 after start-up, and nodes that answer in fixed ways.
\<close>

definition M0 :: bytes where "M0 = replicate 32 0xA0"
definition M1 :: bytes where "M1 = replicate 32 0xB1"
definition M2 :: bytes where "M2 = replicate 32 0xB2"

definition P0 :: bytes where "P0 = 0x02 # replicate 32 0x07"
definition P1 :: bytes where "P1 = 0x02 # replicate 32 0x11"
definition P2 :: bytes where "P2 = 0x03 # replicate 32 0x22"

definition cfg0 :: config where
  "cfg0 = \<lparr>RPC_URL = ''https://mainnet.base.org'',
           GROUPAUTH_ADDRESS = ''0x00000000000000000000000000000000000000aa'',
           GROUP_SECRET = ''default-group-secret'',
           POLL_INTERVAL = 12\<rparr>"

text \<open>What the key service answers: the application id, a key and a chain of two signatures.\<close>

definition app_id0 :: string where
  "app_id0 = ''0x00112233445566778899aabbccddeeff00112233''"

definition app_bytes0 :: bytes where
  "app_bytes0 = [0x00, 0x11, 0x22, 0x33, 0x44, 0x55, 0x66, 0x77, 0x88, 0x99,
                 0xAA, 0xBB, 0xCC, 0xDD, 0xEE, 0xFF, 0x00, 0x11, 0x22, 0x33]"

definition key0 :: string where
  "key0 = ''0x0707070707070707070707070707070707070707070707070707070707070707''"

definition app_sig0 :: string where
  "app_sig0 = ''0x1111111111111111111111111111111111111111111111111111111111111111111111111111111111111111111111111111111111111111111111111111111111''"

definition kms_sig0 :: string where
  "kms_sig0 = ''0x2222222222222222222222222222222222222222222222222222222222222222222222222222222222222222222222222222222222222222222222222222222222''"

definition result0 :: key_response where
  "result0 = \<lparr>key = key0, signature_chain = [app_sig0, kms_sig0]\<rparr>"

definition address0 :: string where
  "address0 = ''0x00000000000000000000000000000000000000a0''"

text \<open>
  Stand-ins for the library functions. They have the shapes of the real ones (32-byte
  hashes, 33-byte compressed keys, 65-byte signatures, 42-character addresses) and none
  of their cryptography.
\<close>

definition lib0 :: lib where
  "lib0 =
     \<lparr>from_key = (\<lambda>k. if length k = 32 then Inr address0 else Inl ValueError),
      to_compressed_bytes = (\<lambda>k. if length k = 32 then Inr (0x02 # k) else Inl ValueError),
      keccak = (\<lambda>b. replicate 32 (of_nat (length b) + 0x7F)),
      recover_public_key_from_msg_hash =
        (\<lambda>sg h. if length sg = 65 then Inr (0x03 # h, address0) else Inl BadSignature),
      unsafe_sign_hash = (\<lambda>k h. h @ k @ [0x1B]),
      to_checksum_address = (\<lambda>a. if length a = 42 then Inr a else Inl ValueError)\<rparr>"

text \<open>The agent that start-up builds from these answers with \<open>lib0\<close>.\<close>

definition ag0 :: agent where
  "ag0 = \<lparr>app_id = app_id0,
          acct_address = address0,
          derived_key = replicate 32 0x07,
          derived_pubkey = 0x02 # replicate 32 0x07,
          code_id = app_bytes0 @ replicate 12 0,
          dstack_proof = (replicate 32 0x91, replicate 32 0xBB @ replicate 32 0x07 @ [0x1B],
                          replicate 65 0x11, replicate 65 0x22,
                          0x02 # replicate 32 0x07, 0x03 # replicate 32 0xCA, ''ethereum''),
          my_member_id = M0\<rparr>"

definition st0 :: wstate where
  "st0 = \<lparr>last_block = 100, onboarded = {},
          calls = [Info, GetKey ''/groupauth'' ''ethereum'', IsMember M0, BlockNumber]\<rparr>"

definition event_of :: "bytes \<Rightarrow> bytes \<Rightarrow> event" where
  "event_of m p =
     \<lparr>memberId = m, codeId = app_bytes0 @ replicate 12 0, pubkey = p, blockNumber = 101\<rparr>"

text \<open>A node on which nothing happens: the chain stays at block 100.\<close>

definition node_idle :: env where
  "node_idle =
     \<lparr>contract_function = (\<lambda>c. None),
      serve = None,
      info = (\<lambda>h. Inr app_id0),
      get_key = (\<lambda>h path purpose. Inr result0),
      isMember = (\<lambda>h m. Inr True),
      get_transaction_count = (\<lambda>h a. Inr (length (sent h))),
      build_transaction = (\<lambda>h c p. Inr [8453]),
      send_raw_transaction = (\<lambda>h tx. Inr [of_nat (length (sent h))]),
      wait_for_transaction_receipt = (\<lambda>h t. Inr \<lparr>status = 1, gasUsed = 90000\<rparr>),
      block_number = (\<lambda>h. Inr 100),
      get_logs = (\<lambda>h a b. Inr []),
      getMember = (\<lambda>h m. Inr (app_bytes0 @ replicate 12 0, if m = M1 then P1 else P2, 100)),
      ecies_encrypt = (\<lambda>h pk s. if length pk = 33 then Inr (pk @ s) else Inl EncryptionError)\<rparr>"

text \<open>
  The chain is at block 100 when start-up reads it and at block 101 afterwards. Block
  101 holds four registrations: the agent's own, \<open>M1\<close>, \<open>M1\<close> again and
  \<open>M2\<close>. Every call succeeds.
\<close>

definition node_busy :: env where
  "node_busy =
     node_idle\<lparr>block_number := (\<lambda>h. Inr (if BlockNumber \<in> set h then 101 else 100)),
               get_logs := (\<lambda>h a b. Inr [event_of M0 P0, event_of M1 P1, event_of M1 P1, event_of M2 P2])\<rparr>"

text \<open>As \<open>node_idle\<close>, but the key service returns a chain with one signature only.\<close>

definition node_short :: env where
  "node_short =
     node_idle\<lparr>get_key := (\<lambda>h path purpose. Inr \<lparr>key = key0, signature_chain = [app_sig0]\<rparr>)\<rparr>"

text \<open>As \<open>node_idle\<close>, but the agent is not a member yet.\<close>

definition node_new :: env where
  "node_new = node_idle\<lparr>isMember := (\<lambda>h m. Inr False)\<rparr>"

text \<open>The answer \<open>result0\<close> with one more byte at the end of the key.\<close>

definition result1 :: key_response where
  "result1 = \<lparr>key = key0 @ ''ff'', signature_chain = [app_sig0, kms_sig0]\<rparr>"

text \<open>The calls of lines 116 to 124 when none of them raises.\<close>

definition onboard_calls :: "agent \<Rightarrow> bytes \<Rightarrow> bytes \<Rightarrow> nat \<Rightarrow> nat list \<Rightarrow> bytes \<Rightarrow> call list" where
  "onboard_calls ag m payload nonce filled tx_hash =
     (let c = Onboard (my_member_id ag) m payload;
          given = \<lparr>tx_from = acct_address ag, tx_nonce = nonce, tx_gas = 200000\<rparr> in
      [GetMember m, GetTransactionCount (acct_address ag), BuildTransaction c given,
       SendRawTransaction \<lparr>tx_call = c, tx_given = given, tx_filled = filled\<rparr>,
       WaitForTransactionReceipt tx_hash])"

definition secret0 :: bytes where
  "secret0 = encode ''default-group-secret''"

text \<open>The state after the first pass on \<open>node_busy\<close>, and after the second.\<close>

definition st_busy :: wstate where
  "st_busy =
     \<lparr>last_block = 101, onboarded = {M1, M2},
      calls = calls st0 @ [BlockNumber, GetLogs 101 101]
        @ onboard_calls ag0 M1 (P1 @ secret0) 0 [8453] [0]
        @ onboard_calls ag0 M2 (P2 @ secret0) 1 [8453] [1]
        @ [Sleep 12]\<rparr>"

definition st_busy2 :: wstate where
  "st_busy2 = st_busy\<lparr>calls := calls st_busy @ [BlockNumber, Sleep 12]\<rparr>"

text \<open>As \<open>node_busy\<close>, but the wait for a receipt times out.\<close>

definition node_timeout :: env where
  "node_timeout = node_busy\<lparr>wait_for_transaction_receipt := (\<lambda>h t. Inl TimeExhausted)\<rparr>"

definition st_timeout :: wstate where
  "st_timeout =
     \<lparr>last_block = 100, onboarded = {},
      calls = calls st0 @ [BlockNumber, GetLogs 101 101]
        @ onboard_calls ag0 M1 (P1 @ secret0) 0 [8453] [0]\<rparr>"

text \<open>
  Block 101 holds the registrations of the agent, of \<open>M1\<close> and of \<open>M2\<close>; the public
  key registered for \<open>M1\<close> is malformed, and the encryption rejects it.
\<close>

definition node_badkey :: env where
  "node_badkey =
     node_busy\<lparr>get_logs := (\<lambda>h a b. Inr [event_of M0 P0, event_of M1 [0x04], event_of M2 P2]),
               getMember := (\<lambda>h m. Inr (app_bytes0 @ replicate 12 0,
                                          if m = M1 then [0x04] else P2, 100))\<rparr>"

definition st_badkey :: wstate where
  "st_badkey =
     \<lparr>last_block = 100, onboarded = {},
      calls = calls st0 @ [BlockNumber, GetLogs 101 101, GetMember M1]\<rparr>"

text \<open>As \<open>node_busy\<close>, but every transaction is mined and reverts (receipt status 0).\<close>

definition node_reverted :: env where
  "node_reverted =
     node_busy\<lparr>wait_for_transaction_receipt := (\<lambda>h t. Inr \<lparr>status = 0, gasUsed = 30000\<rparr>)\<rparr>"

subsection \<open>Facts about the loop\<close>

lemma sent_append: "sent (xs @ ys) = sent xs @ sent ys"
  by (induction xs rule: sent.induct) simp_all

lemma fetched_append: "fetched (xs @ ys) = fetched xs @ fetched ys"
  by (induction xs rule: fetched.induct) simp_all

lemma onboard_targets_append: "onboard_targets (xs @ ys) = onboard_targets xs @ onboard_targets ys"
  by (simp add: onboard_targets_def sent_append)

lemma onboard_targets_no_sent: "sent cs = [] \<Longrightarrow> onboard_targets cs = []"
  by (simp add: onboard_targets_def)

lemma onboard_targets_skip:
  "onboard_targets [] = []"
  "onboard_targets (Info # cs) = onboard_targets cs"
  "onboard_targets (GetKey a0 a1 # cs) = onboard_targets cs"
  "onboard_targets (IsMember m # cs) = onboard_targets cs"
  "onboard_targets (GetTransactionCount a2 # cs) = onboard_targets cs"
  "onboard_targets (BuildTransaction c p # cs) = onboard_targets cs"
  "onboard_targets (WaitForTransactionReceipt t # cs) = onboard_targets cs"
  "onboard_targets (BlockNumber # cs) = onboard_targets cs"
  "onboard_targets (GetLogs a b # cs) = onboard_targets cs"
  "onboard_targets (GetMember m # cs) = onboard_targets cs"
  "onboard_targets (Sleep i # cs) = onboard_targets cs"
  by (simp_all add: onboard_targets_def)

lemma transact_calls:
  assumes "transact e a c g h = (r, h')"
  shows "\<exists>cs. h' = h @ cs \<and> fetched cs = [] \<and>
           (sent cs = [] \<or> (\<exists>tx. sent cs = [tx] \<and> tx_call tx = c)) \<and>
           (\<forall>v. r = Inr v \<longrightarrow> (\<exists>tx. sent cs = [tx] \<and> tx_call tx = c))"
  using assms
  by (auto simp: transact_def Let_def split: sum.splits option.splits)

lemma onboard_member_calls:
  assumes "onboard_member e cfg ag new_id st = (r, st')"
  shows "\<exists>cs. calls st' = calls st @ cs \<and> fetched cs = [] \<and>
           set (onboard_targets cs) \<subseteq> {new_id} \<and>
           last_block st' = last_block st \<and>
           (r = None \<longrightarrow> onboarded st' = insert new_id (onboarded st) \<and> onboard_targets cs = [new_id]) \<and>
           (r \<noteq> None \<longrightarrow> onboarded st' = onboarded st)"
  using assms
  apply (auto simp: onboard_member_def Let_def onboard_targets_def sent_append split: sum.splits prod.splits dest!: transact_calls)
  done

lemma for_events_calls:
  assumes "for_events e cfg ag events st = (r, st')"
  shows "\<exists>cs. calls st' = calls st @ cs \<and> fetched cs = [] \<and>
           my_member_id ag \<notin> set (onboard_targets cs) \<and>
           set (onboard_targets cs) \<subseteq> memberId ` set events \<and>
           last_block st' = last_block st \<and>
           onboarded st \<subseteq> onboarded st' \<and>
           onboarded st' \<subseteq> onboarded st \<union> set (onboard_targets cs) \<and>
           (r = None \<longrightarrow> onboarded st' = onboarded st \<union> set (onboard_targets cs))"
  using assms
proof (induction events arbitrary: st)
  case Nil
  then show ?case by (simp add: onboard_targets_def)
next
  case (Cons evt events)
  show ?case
  proof (cases "memberId evt = my_member_id ag \<or> memberId evt \<in> onboarded st")
    case True
    with Cons.prems have "for_events e cfg ag events st = (r, st')" by (simp add: Let_def)
    from Cons.IH [OF this] show ?thesis by auto
  next
    case False
    obtain r1 st1 where om: "onboard_member e cfg ag (memberId evt) st = (r1, st1)"
      by (cases "onboard_member e cfg ag (memberId evt) st") 
    from onboard_member_calls [OF om] obtain cs1 where
      c1: "calls st1 = calls st @ cs1" "fetched cs1 = []"
          "set (onboard_targets cs1) \<subseteq> {memberId evt}" "last_block st1 = last_block st"
          "r1 = None \<longrightarrow> onboarded st1 = insert (memberId evt) (onboarded st) \<and> onboard_targets cs1 = [memberId evt]"
          "r1 \<noteq> None \<longrightarrow> onboarded st1 = onboarded st"
      by blast
    show ?thesis
    proof (cases r1)
      case (Some x)
      with Cons.prems False om have "r = Some x" "st' = st1" by (simp_all add: Let_def)
      with c1 Some False show ?thesis
        by (intro exI [of _ cs1]) auto
    next
      case None
      with Cons.prems False om have "for_events e cfg ag events st1 = (r, st')"
        by (simp add: Let_def)
      from Cons.IH [OF this] obtain cs2 where
        c2: "calls st' = calls st1 @ cs2" "fetched cs2 = []"
            "my_member_id ag \<notin> set (onboard_targets cs2)"
            "set (onboard_targets cs2) \<subseteq> memberId ` set events"
            "last_block st' = last_block st1"
            "onboarded st1 \<subseteq> onboarded st'"
            "onboarded st' \<subseteq> onboarded st1 \<union> set (onboard_targets cs2)"
            "r = None \<longrightarrow> onboarded st' = onboarded st1 \<union> set (onboard_targets cs2)"
        by blast
      from c1 c2 None False show ?thesis
        by (intro exI [of _ "cs1 @ cs2"])
           (auto simp: onboard_targets_append fetched_append)
    qed
  qed
qed

lemma for_events_done:
  assumes "for_events e cfg ag events st = (None, st')"
  shows "\<forall>evt\<in>set events. memberId evt = my_member_id ag \<or> memberId evt \<in> onboarded st'"
  using assms
proof (induction events arbitrary: st)
  case Nil
  then show ?case by simp
next
  case (Cons evt events)
  show ?case
  proof (cases "memberId evt = my_member_id ag \<or> memberId evt \<in> onboarded st")
    case True
    with Cons.prems have fe: "for_events e cfg ag events st = (None, st')" by (simp add: Let_def)
    from for_events_calls [OF fe] have "onboarded st \<subseteq> onboarded st'" by blast
    with True Cons.IH [OF fe] show ?thesis by auto
  next
    case False
    obtain r1 st1 where om: "onboard_member e cfg ag (memberId evt) st = (r1, st1)"
      by (cases "onboard_member e cfg ag (memberId evt) st")
    with Cons.prems False have r1: "r1 = None" and fe: "for_events e cfg ag events st1 = (None, st')"
      by (auto simp: Let_def split: option.splits)
    from onboard_member_calls [OF om] r1 have "memberId evt \<in> onboarded st1" by auto
    moreover from for_events_calls [OF fe] have "onboarded st1 \<subseteq> onboarded st'" by blast
    ultimately show ?thesis using Cons.IH [OF fe] by auto
  qed
qed

lemma sleep_calls:
  assumes "sleep cfg st = (r, st')"
  shows "\<exists>cs. calls st' = calls st @ cs \<and> filter is_ledger_call cs = [] \<and> sent cs = [] \<and> fetched cs = [] \<and>
     last_block st' = last_block st \<and> onboarded st' = onboarded st"
  using assms by (auto simp: sleep_def Let_def split: if_splits)

lemma tick_calls:
  assumes "tick e cfg ag st = (r, st')"
  shows "\<exists>cs. calls st' = calls st @ cs \<and>
           my_member_id ag \<notin> set (onboard_targets cs) \<and>
           last_block st \<le> last_block st' \<and>
           onboarded st \<subseteq> onboarded st' \<and>
           onboarded st' \<subseteq> onboarded st \<union> set (onboard_targets cs)"
proof (cases "block_number e (calls st)")
  case (Inl x)
  with assms show ?thesis
    by (intro exI [of _ "[BlockNumber]"]) (auto simp: tick_def Let_def onboard_targets_def)
next
  case (Inr current_block)
  let ?st1 = "st\<lparr>calls := calls st @ [BlockNumber]\<rparr>"
  show ?thesis
  proof (cases "current_block > last_block st")
    case False
    with assms Inr have "sleep cfg ?st1 = (r, st')" by (simp add: tick_def Let_def)
    from sleep_calls [OF this] obtain cs where
      "calls st' = calls ?st1 @ cs" "sent cs = []" "last_block st' = last_block ?st1"
      "onboarded st' = onboarded ?st1" by blast
    then show ?thesis
      by (intro exI [of _ "[BlockNumber] @ cs"])
         (auto simp: onboard_targets_append onboard_targets_no_sent onboard_targets_skip)
  next
    case True
    let ?g = "GetLogs (last_block st + 1) current_block"
    let ?st2 = "st\<lparr>calls := calls st @ [BlockNumber, ?g]\<rparr>"
    show ?thesis
    proof (cases "get_logs e (calls st @ [BlockNumber]) (last_block st + 1) current_block")
      case (Inl x)
      with assms Inr True show ?thesis
        by (intro exI [of _ "[BlockNumber, ?g]"]) (auto simp: tick_def Let_def onboard_targets_def)
    next
      case (Inr events)
      obtain r3 st3 where fe: "for_events e cfg ag events ?st2 = (r3, st3)"
        by (cases "for_events e cfg ag events ?st2")
      from for_events_calls [OF fe] obtain cs3 where
        c3: "calls st3 = calls ?st2 @ cs3" "my_member_id ag \<notin> set (onboard_targets cs3)"
            "last_block st3 = last_block ?st2" "onboarded ?st2 \<subseteq> onboarded st3"
            "onboarded st3 \<subseteq> onboarded ?st2 \<union> set (onboard_targets cs3)"
        by blast
      show ?thesis
      proof (cases r3)
        case (Some x)
        with assms \<open>block_number e (calls st) = Inr current_block\<close> True Inr fe
        have "st' = st3" by (simp add: tick_def Let_def)
        with c3 show ?thesis
          by (intro exI [of _ "[BlockNumber, ?g] @ cs3"])
             (auto simp: onboard_targets_append onboard_targets_no_sent onboard_targets_skip)
      next
        case None
        with assms \<open>block_number e (calls st) = Inr current_block\<close> True Inr fe
        have "sleep cfg (st3\<lparr>last_block := current_block\<rparr>) = (r, st')"
          by (simp add: tick_def Let_def)
        from sleep_calls [OF this] obtain cs where
          "calls st' = calls st3 @ cs" "sent cs = []" "last_block st' = current_block"
          "onboarded st' = onboarded st3" by auto
        with c3 True show ?thesis
          by (intro exI [of _ "[BlockNumber, ?g] @ cs3 @ cs"])
             (auto simp: onboard_targets_append onboard_targets_no_sent onboard_targets_skip)
      qed
    qed
  qed
qed

lemma watcher_calls:
  assumes "watcher n e cfg ag st = (r, st')"
  shows "\<exists>cs. calls st' = calls st @ cs \<and>
           my_member_id ag \<notin> set (onboard_targets cs) \<and>
           last_block st \<le> last_block st' \<and>
           onboarded st \<subseteq> onboarded st' \<and>
           onboarded st' \<subseteq> onboarded st \<union> set (onboard_targets cs)"
  using assms
proof (induction n arbitrary: st)
  case 0
  then show ?case by (simp add: onboard_targets_def)
next
  case (Suc n)
  obtain r1 st1 where t: "tick e cfg ag st = (r1, st1)" by (cases "tick e cfg ag st")
  from tick_calls [OF t] obtain cs1 where
    c1: "calls st1 = calls st @ cs1" "my_member_id ag \<notin> set (onboard_targets cs1)"
        "last_block st \<le> last_block st1" "onboarded st \<subseteq> onboarded st1"
        "onboarded st1 \<subseteq> onboarded st \<union> set (onboard_targets cs1)"
    by blast
  show ?case
  proof (cases r1)
    case (Some x)
    with Suc.prems t have "st' = st1" by simp
    with c1 show ?thesis by blast
  next
    case None
    with Suc.prems t have "watcher n e cfg ag st1 = (r, st')" by simp
    from Suc.IH [OF this] obtain cs2 where
      "calls st' = calls st1 @ cs2" "my_member_id ag \<notin> set (onboard_targets cs2)"
      "last_block st1 \<le> last_block st'" "onboarded st1 \<subseteq> onboarded st'"
      "onboarded st' \<subseteq> onboarded st1 \<union> set (onboard_targets cs2)"
      by blast
    with c1 show ?thesis
      by (intro exI [of _ "cs1 @ cs2"]) (auto simp: onboard_targets_append)
  qed
qed


lemma for_events_raise:
  assumes "for_events e cfg ag pre st = (None, st1)"
    and "memberId evt \<noteq> my_member_id ag" and "memberId evt \<notin> onboarded st1"
    and "onboard_member e cfg ag (memberId evt) st1 = (Some x, st2)"
  shows "for_events e cfg ag (pre @ evt # post) st = (Some x, st2)"
  using assms
proof (induction pre arbitrary: st)
  case Nil
  then show ?case by (simp add: Let_def)
next
  case (Cons a pre)
  show ?case
  proof (cases "memberId a = my_member_id ag \<or> memberId a \<in> onboarded st")
    case True
    with Cons.prems have "for_events e cfg ag pre st = (None, st1)" by (simp add: Let_def)
    from Cons.IH [OF this Cons.prems(2-4)] True show ?thesis by (simp add: Let_def)
  next
    case False
    obtain r' st' where om: "onboard_member e cfg ag (memberId a) st = (r', st')"
      by (cases "onboard_member e cfg ag (memberId a) st")
    with Cons.prems False have r': "r' = None" and fe: "for_events e cfg ag pre st' = (None, st1)"
      by (auto simp: Let_def split: option.splits)
    from Cons.IH [OF fe Cons.prems(2-4)] False om r' show ?thesis by (simp add: Let_def)
  qed
qed

lemma tick_raise:
  assumes "block_number e (calls st) = Inr current_block" and "last_block st < current_block"
    and "get_logs e (calls st @ [BlockNumber]) (last_block st + 1) current_block = Inr events"
    and "for_events e cfg ag events
           (st\<lparr>calls := calls st @ [BlockNumber, GetLogs (last_block st + 1) current_block]\<rparr>)
         = (Some x, st')"
  shows "tick e cfg ag st = (Some x, st')" and "watcher (Suc n) e cfg ag st = (Some x, st')"
proof -
  from assms show "tick e cfg ag st = (Some x, st')" by (simp add: tick_def Let_def)
  then show "watcher (Suc n) e cfg ag st = (Some x, st')" by simp
qed

subsection \<open>Facts about start-up\<close>

lemma length_hex: "length (hex bs) = 2 * length bs"
  by (induction bs) (simp_all add: hex_def)

lemma encode_append: "encode (xs @ ys) = encode xs @ encode ys"
  by (simp add: encode_def)

lemma utf8_hex_char: "n < 16 \<Longrightarrow> length (utf8 (hex_char n)) = 1"
  by (simp add: utf8_def hex_char_def Let_def)

lemma length_encode_hex: "length (encode (hex bs)) = 2 * length bs"
proof (induction bs)
  case Nil
  then show ?case by (simp add: hex_def encode_def)
next
  case (Cons b bs)
  have "unat b < 256" using unsigned_less [of b, where ?'a = nat] by simp
  then have "unat b div 16 < 16" "unat b mod 16 < 16" by simp_all
  with Cons show ?case by (simp add: hex_def encode_def utf8_hex_char)
qed

lemma length_encode_Cons:
  "length (encode []) = 0"
  "length (encode (c # cs)) = length (utf8 c) + length (encode cs)"
  by (simp_all add: encode_def)

lemma length_encode_literals:
  "length (encode ''ethereum:'') = 9"
  "length (encode ''groupauth-register'') = 18"
  "length (encode ''Ethereum Signed Message:'') = 24"
  "length (encode ''32'') = 2"
  "length (encode ''dstack-kms-issued:'') = 18"
  by (simp_all add: encode_def utf8_def)

lemma register_sent:
  assumes "register e ag h = (r, h')"
  shows "\<exists>cs. h' = h @ cs \<and> length (sent cs) \<le> 1"
proof (cases "isMember e h (my_member_id ag)")
  case (Inl x)
  with assms show ?thesis by (auto simp: register_def Let_def)
next
  case (Inr b)
  show ?thesis
  proof (cases b)
    case True
    with assms Inr show ?thesis by (auto simp: register_def Let_def)
  next
    case False
    let ?h1 = "h @ [IsMember (my_member_id ag)]"
    obtain r2 h2 where t: "transact e (acct_address ag)
        (RegisterDstack (code_id ag) (dstack_proof ag)) 500000 ?h1 = (r2, h2)"
      by (cases "transact e (acct_address ag)
        (RegisterDstack (code_id ag) (dstack_proof ag)) 500000 ?h1")
    from transact_calls [OF t] obtain cs where
      cs: "h2 = ?h1 @ cs" "sent cs = [] \<or> (\<exists>tx. sent cs = [tx])" by blast
    from assms Inr False t have "h' = h2"
      by (auto simp: register_def Let_def split: sum.splits if_splits)
    with cs show ?thesis
      by (intro exI [of _ "[IsMember (my_member_id ag)] @ cs"]) (auto simp: sent_append)
  qed
qed

lemma register_checks_receipt:
  assumes "isMember e h (my_member_id ag) = Inr False"
    and "transact e (acct_address ag) (RegisterDstack (code_id ag) (dstack_proof ag)) 500000
           (h @ [IsMember (my_member_id ag)]) = (Inr (tx_hash, r), h2)"
    and "status r \<noteq> 1"
  shows "register e ag h = (Some AssertionError, h2)"
  using assms by (simp add: register_def Let_def)

lemma startup_sent: "length (sent (snd (startup e l cfg))) \<le> 1"
proof -
  have "length (sent h') \<le> 1"
    if "register e ag [Info, GetKey ''/groupauth'' ''ethereum''] = (r, h')" for ag r h'
    using register_sent [OF that] by (auto simp: sent_append)
  then show ?thesis
    by (auto simp: startup_def Let_def split: sum.splits prod.splits option.splits)
qed

subsection \<open>The example runs, evaluated\<close>

lemma M_distinct: "M0 \<noteq> M1" "M0 \<noteq> M2" "M1 \<noteq> M2" "M1 \<noteq> M0" "M2 \<noteq> M0" "M2 \<noteq> M1"
  by (simp_all add: M0_def M1_def M2_def)

lemma P_length: "length P1 = 33" "length P2 = 33"
  by (simp_all add: P1_def P2_def)

lemma sent_onboard_calls:
  "sent (onboard_calls ag m payload nonce filled tx_hash) =
     [\<lparr>tx_call = Onboard (my_member_id ag) m payload,
       tx_given = \<lparr>tx_from = acct_address ag, tx_nonce = nonce, tx_gas = 200000\<rparr>,
       tx_filled = filled\<rparr>]"
  by (simp add: onboard_calls_def Let_def)

lemma onboard_targets_onboard_calls:
  "onboard_targets (onboard_calls ag m payload nonce filled tx_hash) = [m]"
  by (simp add: onboard_targets_def sent_onboard_calls)

lemma busy_onboard_M1:
  "onboard_member node_busy cfg0 ag0 M1 st =
     (None, st\<lparr>onboarded := insert M1 (onboarded st),
               calls := calls st @ onboard_calls ag0 M1 (P1 @ secret0) (length (sent (calls st)))
                          [8453] [of_nat (length (sent (calls st)))]\<rparr>)"
  by (simp add: onboard_member_def transact_def Let_def node_busy_def node_idle_def P_length
        sent_append onboard_calls_def secret0_def cfg0_def)

lemma busy_onboard_M2:
  "onboard_member node_busy cfg0 ag0 M2 st =
     (None, st\<lparr>onboarded := insert M2 (onboarded st),
               calls := calls st @ onboard_calls ag0 M2 (P2 @ secret0) (length (sent (calls st)))
                          [8453] [of_nat (length (sent (calls st)))]\<rparr>)"
  by (simp add: onboard_member_def transact_def Let_def node_busy_def node_idle_def P_length
        sent_append onboard_calls_def secret0_def cfg0_def M_distinct)

lemma busy_facts:
  "BlockNumber \<in> set h \<Longrightarrow> block_number node_busy h = Inr 101"
  "get_logs node_busy h a c = Inr [event_of M0 P0, event_of M1 P1, event_of M1 P1, event_of M2 P2]"
  "my_member_id ag0 = M0"
  "memberId (event_of x p) = x"
  "POLL_INTERVAL cfg0 = 12"
  by (simp_all add: node_busy_def ag0_def event_of_def cfg0_def)

lemma busy_tick: "tick node_busy cfg0 ag0 st0 = (None, st_busy)"
  by (simp add: tick_def Let_def busy_facts busy_onboard_M1 busy_onboard_M2 M_distinct st0_def
        st_busy_def sent_append sent_onboard_calls sleep_def insert_commute)

lemma busy_tick2: "tick node_busy cfg0 ag0 st_busy = (None, st_busy2)"
  by (simp add: tick_def Let_def busy_facts st0_def st_busy_def st_busy2_def sleep_def)

lemma busy_watcher: "watcher 2 node_busy cfg0 ag0 st0 = (None, st_busy2)"
proof -
  have "watcher 2 node_busy cfg0 ag0 st0 = watcher (Suc (Suc 0)) node_busy cfg0 ag0 st0"
    by (simp add: numeral_2_eq_2)
  also have "\<dots> = (None, st_busy2)" by (simp add: busy_tick busy_tick2)
  finally show ?thesis .
qed

lemma busy_initial:
  "initial_state node_busy [Info, GetKey ''/groupauth'' ''ethereum'', IsMember M0] = Inr st0"
  by (simp add: initial_state_def node_busy_def st0_def)

lemma busy_targets: "onboard_targets (calls st_busy2) = [M1, M2]"
  by (simp add: st_busy2_def st_busy_def st0_def onboard_targets_append onboard_targets_onboard_calls
       onboard_targets_skip)

lemma timeout_facts:
  "BlockNumber \<in> set h \<Longrightarrow> block_number node_timeout h = Inr 101"
  "get_logs node_timeout h a c = Inr [event_of M0 P0, event_of M1 P1, event_of M1 P1, event_of M2 P2]"
  "getMember node_timeout h M1 = Inr (app_bytes0 @ replicate 12 0, P1, 100)"
  "ecies_encrypt node_timeout h P1 (encode (GROUP_SECRET cfg0)) = Inr (P1 @ secret0)"
  by (simp_all add: node_timeout_def node_busy_def node_idle_def P_length secret0_def cfg0_def)

lemma timeout_transact:
  "transact node_timeout (acct_address ag0) (Onboard (my_member_id ag0) M1 (P1 @ secret0)) 200000
     (h @ [GetMember M1])
   = (Inl TimeExhausted,
      h @ onboard_calls ag0 M1 (P1 @ secret0) (length (sent h)) [8453] [of_nat (length (sent h))])"
  by (simp add: transact_def Let_def node_timeout_def node_busy_def node_idle_def sent_append
        onboard_calls_def)

lemma timeout_onboard_M1:
  "onboard_member node_timeout cfg0 ag0 M1 st =
     (Some TimeExhausted,
      st\<lparr>calls := calls st @ onboard_calls ag0 M1 (P1 @ secret0) (length (sent (calls st)))
                          [8453] [of_nat (length (sent (calls st)))]\<rparr>)"
  by (simp add: onboard_member_def Let_def timeout_facts timeout_transact)

lemma timeout_tick: "tick node_timeout cfg0 ag0 st0 = (Some TimeExhausted, st_timeout)"
  by (simp add: tick_def Let_def timeout_facts busy_facts timeout_onboard_M1 M_distinct st0_def
        st_timeout_def)

lemma badkey_facts:
  "BlockNumber \<in> set h \<Longrightarrow> block_number node_badkey h = Inr 101"
  "get_logs node_badkey h a c = Inr [event_of M0 P0, event_of M1 [0x04], event_of M2 P2]"
  "getMember node_badkey h M1 = Inr (app_bytes0 @ replicate 12 0, [0x04], 100)"
  "ecies_encrypt node_badkey h [0x04] s = Inl EncryptionError"
  by (simp_all add: node_badkey_def node_busy_def node_idle_def)

lemma badkey_onboard_M1:
  "onboard_member node_badkey cfg0 ag0 M1 st =
     (Some EncryptionError, st\<lparr>calls := calls st @ [GetMember M1]\<rparr>)"
  by (simp add: onboard_member_def Let_def badkey_facts)

lemma badkey_tick: "tick node_badkey cfg0 ag0 st0 = (Some EncryptionError, st_badkey)"
  by (simp add: tick_def Let_def badkey_facts busy_facts badkey_onboard_M1 M_distinct st0_def
        st_badkey_def)

text \<open>
  The receipt of an onboarding transaction is not inspected (line 124), unlike that of
  the registration (line 82): on \<open>node_reverted\<close> the pass ends exactly as on
  \<open>node_busy\<close>, with both members recorded as onboarded and the watermark advanced.
\<close>

lemma reverted_onboard:
  "m = M1 \<and> p = P1 \<or> m = M2 \<and> p = P2 \<Longrightarrow>
   onboard_member node_reverted cfg0 ag0 m st =
     (None, st\<lparr>onboarded := insert m (onboarded st),
               calls := calls st @ onboard_calls ag0 m (p @ secret0) (length (sent (calls st)))
                          [8453] [of_nat (length (sent (calls st)))]\<rparr>)"
  by (auto simp: onboard_member_def transact_def Let_def node_reverted_def node_busy_def
        node_idle_def P_length sent_append onboard_calls_def secret0_def cfg0_def M_distinct)

lemma reverted_tick: "tick node_reverted cfg0 ag0 st0 = (None, st_busy)"
proof -
  have "BlockNumber \<in> set h \<Longrightarrow> block_number node_reverted h = Inr 101" for h
    by (simp add: node_reverted_def node_busy_def)
  moreover have "get_logs node_reverted h a c
      = Inr [event_of M0 P0, event_of M1 P1, event_of M1 P1, event_of M2 P2]" for h a c
    by (simp add: node_reverted_def node_busy_def)
  ultimately show ?thesis
    by (simp add: tick_def Let_def busy_facts reverted_onboard M_distinct st0_def
          st_busy_def sent_append sent_onboard_calls sleep_def insert_commute)
qed

lemma fromhex_key0: "fromhex (replace_0x key0) = Inr (replicate 32 0x07)"
  by (simp add: key0_def isspace_def digit_value_def eval_nat_numeral)

lemma fromhex_key1: "fromhex (replace_0x (key0 @ ''ff'')) = Inr (replicate 32 0x07 @ [0xFF])"
  by (simp add: key0_def isspace_def digit_value_def eval_nat_numeral)

lemma fromhex_app_sig0: "fromhex (replace_0x app_sig0) = Inr (replicate 65 0x11)"
  by (simp add: app_sig0_def isspace_def digit_value_def eval_nat_numeral)

lemma fromhex_kms_sig0: "fromhex (replace_0x kms_sig0) = Inr (replicate 65 0x22)"
  by (simp add: kms_sig0_def isspace_def digit_value_def eval_nat_numeral)

lemma fromhex_app_id0: "fromhex (replace_0x app_id0) = Inr app_bytes0"
  by (simp add: app_id0_def app_bytes0_def isspace_def digit_value_def)

lemma parse_key0: "parse_derived_key key0 = Inr (replicate 32 0x07)"
  by (simp add: parse_derived_key_def fromhex_key0)

lemma parse_chain0:
  "parse_signature_chain [app_sig0, kms_sig0] = Inr (replicate 65 0x11, replicate 65 0x22)"
  by (simp add: parse_signature_chain_def fromhex_app_sig0 fromhex_kms_sig0)

lemma lib0_facts:
  "length k = 32 \<Longrightarrow> from_key lib0 k = Inr address0"
  "length k = 32 \<Longrightarrow> to_compressed_bytes lib0 k = Inr (0x02 # k)"
  "keccak lib0 b = replicate 32 (of_nat (length b) + 0x7F)"
  "length sg = 65 \<Longrightarrow> recover_public_key_from_msg_hash lib0 sg h = Inr (0x03 # h, address0)"
  "unsafe_sign_hash lib0 k h = h @ k @ [0x1B]"
  "length a = 42 \<Longrightarrow> to_checksum_address lib0 a = Inr a"
  by (simp_all add: lib0_def)

lemma assemble0:
  "assemble lib0 cfg0 app_id0 (replicate 32 0x07) address0 (replicate 65 0x11) (replicate 65 0x22)
     = Inr ag0"
  by (simp add: assemble_def Let_def lib0_facts fromhex_app_id0 encode_append
        length_encode_hex length_encode_literals length_encode_Cons utf8_def
        solidity_keccak_bytes_def ag0_def cfg0_def M0_def app_bytes0_def)

lemma identity0: "identity lib0 cfg0 app_id0 result0 = Inr ag0"
  by (simp add: identity_def result0_def parse_key0 parse_chain0 lib0_facts assemble0)

lemma identity1: "identity lib0 cfg0 app_id0 result1 = Inr ag0"
proof -
  have "parse_derived_key (key0 @ ''ff'') = Inr (replicate 32 0x07)"
    by (simp add: parse_derived_key_def fromhex_key1)
  then show ?thesis
    by (simp add: identity_def result1_def parse_chain0 lib0_facts assemble0)
qed

lemma startup_idle:
  "startup node_idle lib0 cfg0 = (Inr ag0, [Info, GetKey ''/groupauth'' ''ethereum'', IsMember M0])"
proof -
  have "my_member_id ag0 = M0" by (simp add: ag0_def)
  then show ?thesis
    by (simp add: startup_def Let_def node_idle_def identity0 register_def)
qed

lemma startup_new:
  "startup node_new lib0 cfg0 =
     (Inr ag0,
      [Info, GetKey ''/groupauth'' ''ethereum'', IsMember M0, GetTransactionCount address0,
       BuildTransaction (RegisterDstack (code_id ag0) (dstack_proof ag0))
         \<lparr>tx_from = address0, tx_nonce = 0, tx_gas = 500000\<rparr>,
       SendRawTransaction
         \<lparr>tx_call = RegisterDstack (code_id ag0) (dstack_proof ag0),
          tx_given = \<lparr>tx_from = address0, tx_nonce = 0, tx_gas = 500000\<rparr>,
          tx_filled = [8453]\<rparr>,
       WaitForTransactionReceipt [0]])"
proof -
  have "my_member_id ag0 = M0" "acct_address ag0 = address0" by (simp_all add: ag0_def)
  then show ?thesis
    by (simp add: startup_def Let_def node_new_def node_idle_def identity0 register_def
          transact_def)
qed

section \<open>The specification, property by property\<close>

text \<open>
  \<^bold>\<open>C1\<close>. The specification has a failed onboarding transaction retried on the next
  pass, without the loop crashing. The script does otherwise: when the wait for the
  receipt times out, the exception leaves the loop and ends the process. On
  \<open>node_timeout\<close> the first pass ends with \<open>TimeExhausted\<close>, and so does the watcher, after
  a single transaction to \<open>M1\<close>: there is no second pass.
\<close>

theorem failed_onboarding_counterexample:
  "wait_for_transaction_receipt node_timeout
     (calls st0 @ [BlockNumber, GetLogs 101 101]
        @ butlast (onboard_calls ag0 M1 (P1 @ secret0) 0 [8453] [0])) [0] = Inl TimeExhausted \<and>
   tick node_timeout cfg0 ag0 st0 = (Some TimeExhausted, st_timeout) \<and>
   watcher 2 node_timeout cfg0 ag0 st0 = (Some TimeExhausted, st_timeout) \<and>
   onboard_targets (calls st_timeout) = [M1]"
proof -
  have "watcher 2 node_timeout cfg0 ag0 st0 = watcher (Suc (Suc 0)) node_timeout cfg0 ag0 st0"
    by (simp add: numeral_2_eq_2)
  then have "watcher 2 node_timeout cfg0 ag0 st0 = (Some TimeExhausted, st_timeout)"
    by (simp add: timeout_tick)
  moreover have "onboard_targets (calls st_timeout) = [M1]"
    by (simp add: st_timeout_def st0_def onboard_targets_append onboard_targets_onboard_calls
          onboard_targets_skip)
  moreover have "wait_for_transaction_receipt node_timeout h t = Inl TimeExhausted" for h t
    by (simp add: node_timeout_def)
  ultimately show ?thesis by (simp add: timeout_tick)
qed

text \<open>
  \<^bold>\<open>C1, amended\<close>. If the onboarding transaction of an event raises (while the call is
  constructed, the nonce read, the transaction built or sent, or the receipt awaited, for
  instance by timing out), then the pass and the watcher end with that exception, the
  member is not in \<open>onboarded\<close>, and \<open>last_block\<close> is what it was before the pass.
\<close>

theorem onboarding_exception_ends_loop:
  assumes "block_number e (calls st) = Inr current_block" and "last_block st < current_block"
    and "get_logs e (calls st @ [BlockNumber]) (last_block st + 1) current_block
           = Inr (pre @ evt # post)"
    and "for_events e cfg ag pre
           (st\<lparr>calls := calls st @ [BlockNumber, GetLogs (last_block st + 1) current_block]\<rparr>)
         = (None, st1)"
    and "memberId evt \<noteq> my_member_id ag" and "memberId evt \<notin> onboarded st1"
    and "getMember e (calls st1) (memberId evt) = Inr member_info"
    and "ecies_encrypt e (calls st1 @ [GetMember (memberId evt)]) (fst (snd member_info))
           (encode (GROUP_SECRET cfg)) = Inr payload"
    and "transact e (acct_address ag) (Onboard (my_member_id ag) (memberId evt) payload) 200000
           (calls st1 @ [GetMember (memberId evt)]) = (Inl x, h)"
  shows "tick e cfg ag st = (Some x, st1\<lparr>calls := h\<rparr>) \<and>
         watcher (Suc n) e cfg ag st = (Some x, st1\<lparr>calls := h\<rparr>) \<and>
         memberId evt \<notin> onboarded (st1\<lparr>calls := h\<rparr>) \<and>
         last_block (st1\<lparr>calls := h\<rparr>) = last_block st"
proof -
  from assms(7-9) have om: "onboard_member e cfg ag (memberId evt) st1 = (Some x, st1\<lparr>calls := h\<rparr>)"
    by (simp add: onboard_member_def Let_def)
  from for_events_raise [OF assms(4-6) om]
  have fe: "for_events e cfg ag (pre @ evt # post)
           (st\<lparr>calls := calls st @ [BlockNumber, GetLogs (last_block st + 1) current_block]\<rparr>)
         = (Some x, st1\<lparr>calls := h\<rparr>)" .
  from for_events_calls [OF assms(4)] have "last_block st1 = last_block st" by auto
  with tick_raise [OF assms(1-3) fe] assms(6) show ?thesis by simp
qed

theorem onboarding_exception_ends_loop_witness:
  "tick node_timeout cfg0 ag0 st0 = (Some TimeExhausted, st_timeout) \<and>
   watcher (Suc 1) node_timeout cfg0 ag0 st0 = (Some TimeExhausted, st_timeout) \<and>
   memberId (event_of M1 P1) \<notin> onboarded st_timeout \<and>
   last_block st_timeout = last_block st0"
proof -
  let ?st1 = "st0\<lparr>calls := calls st0 @ [BlockNumber, GetLogs (last_block st0 + 1) 101]\<rparr>"
  have 1: "block_number node_timeout (calls st0) = Inr 101"
    by (simp add: timeout_facts st0_def)
  have 2: "last_block st0 < 101" by (simp add: st0_def)
  have 3: "get_logs node_timeout (calls st0 @ [BlockNumber]) (last_block st0 + 1) 101
             = Inr ([event_of M0 P0] @ event_of M1 P1 # [event_of M1 P1, event_of M2 P2])"
    by (simp add: timeout_facts)
  have 4: "for_events node_timeout cfg0 ag0 [event_of M0 P0] ?st1 = (None, ?st1)"
    by (simp add: busy_facts)
  have 5: "memberId (event_of M1 P1) \<noteq> my_member_id ag0"
    by (simp add: busy_facts M_distinct)
  have 6: "memberId (event_of M1 P1) \<notin> onboarded ?st1"
    by (simp add: st0_def)
  have 7: "getMember node_timeout (calls ?st1) (memberId (event_of M1 P1))
             = Inr (app_bytes0 @ replicate 12 0, P1, 100)"
    by (simp add: busy_facts timeout_facts)
  have 8: "ecies_encrypt node_timeout (calls ?st1 @ [GetMember (memberId (event_of M1 P1))])
             (fst (snd (app_bytes0 @ replicate 12 0, P1, 100 :: nat)))
             (encode (GROUP_SECRET cfg0)) = Inr (P1 @ secret0)"
    by (simp add: timeout_facts)
  have 9: "transact node_timeout (acct_address ag0)
             (Onboard (my_member_id ag0) (memberId (event_of M1 P1)) (P1 @ secret0)) 200000
             (calls ?st1 @ [GetMember (memberId (event_of M1 P1))])
           = (Inl TimeExhausted, calls st_timeout)"
    using timeout_transact [of "calls ?st1"] by (simp add: busy_facts st0_def st_timeout_def)
  have eq: "?st1\<lparr>calls := calls st_timeout\<rparr> = st_timeout"
    by (simp add: st0_def st_timeout_def)
  from onboarding_exception_ends_loop [OF 1 2 3 4 5 6 7 8 9, of 1] show ?thesis
    unfolding eq .
qed

text \<open>
  \<^bold>\<open>C2\<close>. The specification has a member whose public key cannot be encrypted to
  skipped, and the other members of the range processed. The script does otherwise: the
  exception of the encryption leaves the loop. On \<open>node_badkey\<close> the pass ends with
  \<open>EncryptionError\<close> at \<open>M1\<close>; nothing is read or sent for \<open>M2\<close>, whose key is well
  formed.
\<close>

theorem encryption_exception_counterexample:
  "get_logs node_badkey (calls st0 @ [BlockNumber]) 101 101
     = Inr [event_of M0 P0, event_of M1 [0x04], event_of M2 P2] \<and>
   ecies_encrypt node_badkey (calls st0 @ [BlockNumber, GetLogs 101 101, GetMember M1]) [0x04]
     (encode (GROUP_SECRET cfg0)) = Inl EncryptionError \<and>
   tick node_badkey cfg0 ag0 st0 = (Some EncryptionError, st_badkey) \<and>
   M2 \<notin> onboarded st_badkey \<and> M2 \<notin> set (onboard_targets (calls st_badkey)) \<and>
   GetMember M2 \<notin> set (calls st_badkey)"
proof -
  have "M2 \<notin> onboarded st_badkey" by (simp add: st_badkey_def)
  moreover have "onboard_targets (calls st_badkey) = []"
    by (simp add: st_badkey_def st0_def onboard_targets_skip)
  moreover have "GetMember M2 \<notin> set (calls st_badkey)"
    by (simp add: st_badkey_def st0_def M_distinct)
  ultimately show ?thesis by (simp add: badkey_facts badkey_tick)
qed

text \<open>
  \<^bold>\<open>C2, amended\<close>. If the encryption to the public key of an event's member raises, then the pass and
  the watcher end with that exception right after the \<open>getMember\<close> call: no transaction
  is sent for that member, the member is not in \<open>onboarded\<close>, \<open>last_block\<close> is what it was
  before the pass, and no later event of the range is looked at.
\<close>

theorem encryption_exception_ends_loop:
  assumes "block_number e (calls st) = Inr current_block" and "last_block st < current_block"
    and "get_logs e (calls st @ [BlockNumber]) (last_block st + 1) current_block
           = Inr (pre @ evt # post)"
    and "for_events e cfg ag pre
           (st\<lparr>calls := calls st @ [BlockNumber, GetLogs (last_block st + 1) current_block]\<rparr>)
         = (None, st1)"
    and "memberId evt \<noteq> my_member_id ag" and "memberId evt \<notin> onboarded st1"
    and "getMember e (calls st1) (memberId evt) = Inr member_info"
    and "ecies_encrypt e (calls st1 @ [GetMember (memberId evt)]) (fst (snd member_info))
           (encode (GROUP_SECRET cfg)) = Inl x"
  shows "tick e cfg ag st = (Some x, st1\<lparr>calls := calls st1 @ [GetMember (memberId evt)]\<rparr>) \<and>
         watcher (Suc n) e cfg ag st
           = (Some x, st1\<lparr>calls := calls st1 @ [GetMember (memberId evt)]\<rparr>) \<and>
         memberId evt \<notin> onboarded (st1\<lparr>calls := calls st1 @ [GetMember (memberId evt)]\<rparr>) \<and>
         last_block (st1\<lparr>calls := calls st1 @ [GetMember (memberId evt)]\<rparr>) = last_block st"
proof -
  let ?st2 = "st1\<lparr>calls := calls st1 @ [GetMember (memberId evt)]\<rparr>"
  from assms(7-8) have om: "onboard_member e cfg ag (memberId evt) st1 = (Some x, ?st2)"
    by (simp add: onboard_member_def Let_def)
  from for_events_raise [OF assms(4-6) om]
  have fe: "for_events e cfg ag (pre @ evt # post)
           (st\<lparr>calls := calls st @ [BlockNumber, GetLogs (last_block st + 1) current_block]\<rparr>)
         = (Some x, ?st2)" .
  from for_events_calls [OF assms(4)] have "last_block st1 = last_block st" by auto
  with tick_raise [OF assms(1-3) fe] assms(6) show ?thesis by simp
qed

theorem encryption_exception_ends_loop_witness:
  "tick node_badkey cfg0 ag0 st0 = (Some EncryptionError, st_badkey) \<and>
   watcher (Suc 1) node_badkey cfg0 ag0 st0 = (Some EncryptionError, st_badkey) \<and>
   memberId (event_of M1 [0x04]) \<notin> onboarded st_badkey \<and>
   last_block st_badkey = last_block st0"
proof -
  let ?st1 = "st0\<lparr>calls := calls st0 @ [BlockNumber, GetLogs (last_block st0 + 1) 101]\<rparr>"
  have 1: "block_number node_badkey (calls st0) = Inr 101"
    by (simp add: badkey_facts st0_def)
  have 2: "last_block st0 < 101" by (simp add: st0_def)
  have 3: "get_logs node_badkey (calls st0 @ [BlockNumber]) (last_block st0 + 1) 101
             = Inr ([event_of M0 P0] @ event_of M1 [0x04] # [event_of M2 P2])"
    by (simp add: badkey_facts)
  have 4: "for_events node_badkey cfg0 ag0 [event_of M0 P0] ?st1 = (None, ?st1)"
    by (simp add: busy_facts)
  have 5: "memberId (event_of M1 [0x04]) \<noteq> my_member_id ag0"
    by (simp add: busy_facts M_distinct)
  have 6: "memberId (event_of M1 [0x04]) \<notin> onboarded ?st1"
    by (simp add: st0_def)
  have 7: "getMember node_badkey (calls ?st1) (memberId (event_of M1 [0x04]))
             = Inr (app_bytes0 @ replicate 12 0, [0x04], 100)"
    by (simp add: busy_facts badkey_facts)
  have 8: "ecies_encrypt node_badkey (calls ?st1 @ [GetMember (memberId (event_of M1 [0x04]))])
             (fst (snd (app_bytes0 @ replicate 12 0, [0x04], 100 :: nat)))
             (encode (GROUP_SECRET cfg0)) = Inl EncryptionError"
    by (simp add: badkey_facts)
  have eq: "?st1\<lparr>calls := calls ?st1 @ [GetMember (memberId (event_of M1 [0x04]))]\<rparr> = st_badkey"
    by (simp add: st0_def st_badkey_def busy_facts)
  from encryption_exception_ends_loop [OF 1 2 3 4 5 6 7 8, of 1] show ?thesis
    unfolding eq .
qed

text \<open>
  \<^bold>\<open>C3\<close>. When the contract answers that the agent's member id is a member, start-up makes
  three calls, the last of them the membership check, and sends no transaction. Run twice
  against such a ledger it sends none; and whatever an earlier run did (on any ledger, it
  sends at most one transaction), the two runs together send at most one.
\<close>

theorem registration_idempotent:
  assumes "info e [] = Inr a"
    and "get_key e [Info] ''/groupauth'' ''ethereum'' = Inr result"
    and "identity l cfg a result = Inr ag"
    and "isMember e [Info, GetKey ''/groupauth'' ''ethereum''] (my_member_id ag) = Inr True"
  shows "startup e l cfg
           = (Inr ag, [Info, GetKey ''/groupauth'' ''ethereum'', IsMember (my_member_id ag)]) \<and>
         sent (snd (startup e l cfg)) = [] \<and>
         length (sent (snd (startup e l cfg)) @ sent (snd (startup e l cfg))) \<le> 1 \<and>
         length (sent (snd (startup e' l' cfg')) @ sent (snd (startup e l cfg))) \<le> 1"
proof -
  from assms have s: "startup e l cfg
      = (Inr ag, [Info, GetKey ''/groupauth'' ''ethereum'', IsMember (my_member_id ag)])"
    by (simp add: startup_def Let_def register_def)
  then have "sent (snd (startup e l cfg)) = []" by simp
  with s startup_sent [of e' l' cfg'] show ?thesis by simp
qed

theorem registration_idempotent_witness:
  "isMember node_idle [Info, GetKey ''/groupauth'' ''ethereum''] (my_member_id ag0) = Inr True \<and>
   startup node_idle lib0 cfg0
     = (Inr ag0, [Info, GetKey ''/groupauth'' ''ethereum'', IsMember (my_member_id ag0)]) \<and>
   sent (snd (startup node_idle lib0 cfg0)) = [] \<and>
   length (sent (snd (startup node_idle lib0 cfg0)) @ sent (snd (startup node_idle lib0 cfg0))) \<le> 1 \<and>
   length (sent (snd (startup node_new lib0 cfg0)) @ sent (snd (startup node_idle lib0 cfg0))) \<le> 1 \<and>
   length (sent (snd (startup node_new lib0 cfg0))) = 1"
proof -
  have 1: "info node_idle [] = Inr app_id0" by (simp add: node_idle_def)
  have 2: "get_key node_idle [Info] ''/groupauth'' ''ethereum'' = Inr result0"
    by (simp add: node_idle_def)
  have 4: "isMember node_idle [Info, GetKey ''/groupauth'' ''ethereum''] (my_member_id ag0) = Inr True"
    by (simp add: node_idle_def)
  have "length (sent (snd (startup node_new lib0 cfg0))) = 1"
    by (simp add: startup_new)
  with registration_idempotent [OF 1 2 identity0 4, of node_new lib0 cfg0] 4 show ?thesis
    by simp
qed

text \<open>
  What a pass guarantees about the watermark: it never decreases, and it increases only
  to the chain head the pass read, once the \<open>for\<close> loop has gone through every event
  fetched for the blocks in between. Each of them is then the agent's own registration, or
  a member recorded before this pass, or a member to whom this pass sent an onboarding
  transaction and whom it recorded. Whether that transaction succeeded is not part of
  the guarantee.
\<close>

lemma tick_watermark:
  assumes "tick e cfg ag st = (r, st')"
  shows "last_block st \<le> last_block st' \<and>
         (last_block st < last_block st' \<longrightarrow>
            (\<exists>events cs.
               block_number e (calls st) = Inr (last_block st') \<and>
               get_logs e (calls st @ [BlockNumber]) (last_block st + 1) (last_block st') = Inr events \<and>
               calls st' = calls st @ cs \<and>
               (\<forall>evt\<in>set events.
                  memberId evt = my_member_id ag \<or>
                  memberId evt \<in> onboarded st \<or>
                  memberId evt \<in> set (onboard_targets cs) \<and> memberId evt \<in> onboarded st')))"
proof (intro conjI impI)
  from tick_calls [OF assms] show "last_block st \<le> last_block st'" by blast
next
  assume adv: "last_block st < last_block st'"
  obtain current_block where b: "block_number e (calls st) = Inr current_block"
    using assms adv by (cases "block_number e (calls st)") (auto simp: tick_def Let_def)
  let ?st1 = "st\<lparr>calls := calls st @ [BlockNumber]\<rparr>"
  have gt: "current_block > last_block st"
  proof (rule ccontr)
    assume "\<not> current_block > last_block st"
    with assms b have "sleep cfg ?st1 = (r, st')" by (simp add: tick_def Let_def)
    from sleep_calls [OF this] adv show False by auto
  qed
  let ?g = "GetLogs (last_block st + 1) current_block"
  let ?st2 = "st\<lparr>calls := calls st @ [BlockNumber, ?g]\<rparr>"
  obtain events where g: "get_logs e (calls st @ [BlockNumber]) (last_block st + 1) current_block = Inr events"
    using assms adv b gt
    by (cases "get_logs e (calls st @ [BlockNumber]) (last_block st + 1) current_block")
       (auto simp: tick_def Let_def)
  obtain r3 st3 where fe: "for_events e cfg ag events ?st2 = (r3, st3)"
    by (cases "for_events e cfg ag events ?st2")
  from for_events_calls [OF fe] obtain cs3 where
    c3: "calls st3 = calls ?st2 @ cs3" "last_block st3 = last_block ?st2"
        "r3 = None \<longrightarrow> onboarded st3 = onboarded ?st2 \<union> set (onboard_targets cs3)"
    by blast
  have r3: "r3 = None"
  proof (cases r3)
    case (Some x)
    with assms b gt g fe have "st' = st3" by (simp add: tick_def Let_def)
    with c3 adv show ?thesis by simp
  qed simp
  with assms b gt g fe have sl: "sleep cfg (st3\<lparr>last_block := current_block\<rparr>) = (r, st')"
    by (simp add: tick_def Let_def)
  from sleep_calls [OF sl] obtain cs where
    c: "calls st' = calls st3 @ cs" "sent cs = []" "last_block st' = current_block"
       "onboarded st' = onboarded st3" by auto
  from fe r3 have "\<forall>evt\<in>set events. memberId evt = my_member_id ag \<or> memberId evt \<in> onboarded st3"
    by (intro for_events_done) simp
  with c c3 r3 have
    "\<forall>evt\<in>set events. memberId evt = my_member_id ag \<or> memberId evt \<in> onboarded st \<or>
        memberId evt \<in> set (onboard_targets ([BlockNumber, ?g] @ cs3 @ cs)) \<and> memberId evt \<in> onboarded st'"
    by (auto simp: onboard_targets_append onboard_targets_no_sent onboard_targets_skip)
  with b g c c3 show "\<exists>events cs.
               block_number e (calls st) = Inr (last_block st') \<and>
               get_logs e (calls st @ [BlockNumber]) (last_block st + 1) (last_block st') = Inr events \<and>
               calls st' = calls st @ cs \<and>
               (\<forall>evt\<in>set events.
                  memberId evt = my_member_id ag \<or>
                  memberId evt \<in> onboarded st \<or>
                  memberId evt \<in> set (onboard_targets cs) \<and> memberId evt \<in> onboarded st')"
    by (intro exI [of _ events] exI [of _ "[BlockNumber, ?g] @ cs3 @ cs"]) simp
qed

text \<open>
  \<^bold>\<open>C4\<close>. The specification lets the watermark pass a block only once every event in it
  has been processed successfully. The script does not ensure that: it records an
  onboarding as done without reading the receipt of its transaction (line 124), where
  registration asserts the receipt's status (line 82, lemma \<open>register_checks_receipt\<close>).
  On \<open>node_reverted\<close> the watermark is 100, block 101 holds the registrations of \<open>M1\<close> and
  \<open>M2\<close>, and every onboarding transaction is mined and reverts (receipt status 0); the
  pass ends normally with the watermark at 101 and both members recorded as onboarded, so
  neither will be tried again.
\<close>

theorem watermark_passes_reverted_onboarding:
  "last_block st0 = 100 \<and>
   get_logs node_reverted (calls st0 @ [BlockNumber]) 101 101
     = Inr [event_of M0 P0, event_of M1 P1, event_of M1 P1, event_of M2 P2] \<and>
   blockNumber (event_of M1 P1) = 101 \<and>
   wait_for_transaction_receipt node_reverted
     (calls st0 @ [BlockNumber, GetLogs 101 101]
        @ butlast (onboard_calls ag0 M1 (P1 @ secret0) 0 [8453] [0])) [0]
     = Inr \<lparr>status = 0, gasUsed = 30000\<rparr> \<and>
   tick node_reverted cfg0 ag0 st0 = (None, st_busy) \<and>
   last_block st_busy = 101 \<and> onboarded st_busy = {M1, M2}"
proof -
  have "get_logs node_reverted h a c
      = Inr [event_of M0 P0, event_of M1 P1, event_of M1 P1, event_of M2 P2]" for h a c
    by (simp add: node_reverted_def node_busy_def)
  moreover have "wait_for_transaction_receipt node_reverted h t
      = Inr \<lparr>status = 0, gasUsed = 30000\<rparr>" for h t
    by (simp add: node_reverted_def)
  moreover have "last_block st0 = 100" "last_block st_busy = 101" "onboarded st_busy = {M1, M2}"
    "blockNumber (event_of M1 P1) = 101"
    by (simp_all add: st0_def st_busy_def event_of_def)
  ultimately show ?thesis by (simp add: reverted_tick)
qed

text \<open>
  \<^bold>\<open>C5\<close>. Whatever the number of passes and whatever events the node reports, no onboarding
  transaction sent by the watcher is addressed to the agent's own member id.
\<close>

theorem no_self_onboarding:
  assumes "watcher n e cfg ag st = (r, st')"
  shows "\<exists>cs. calls st' = calls st @ cs \<and> my_member_id ag \<notin> set (onboard_targets cs)"
  using watcher_calls [OF assms] by blast

theorem no_self_onboarding_witness:
  "watcher 2 node_busy cfg0 ag0 st0 = (None, st_busy2) \<and>
   get_logs node_busy (calls st0 @ [BlockNumber]) 101 101
     = Inr [event_of M0 P0, event_of M1 P1, event_of M1 P1, event_of M2 P2] \<and>
   memberId (event_of M0 P0) = my_member_id ag0 \<and>
   onboard_targets (calls st_busy2) = [M1, M2] \<and>
   (\<exists>cs. calls st_busy2 = calls st0 @ cs \<and> my_member_id ag0 \<notin> set (onboard_targets cs))"
  using no_self_onboarding [OF busy_watcher] busy_watcher busy_targets by (simp add: busy_facts)

text \<open>
  \<^bold>\<open>C6\<close>. When a pass reads a chain head that is not above the watermark, it does nothing:
  it leaves \<open>last_block\<close> and \<open>onboarded\<close> as they were, sends no transaction, fetches no
  events, and its only call to the node is the read of the block number.
\<close>

theorem tick_without_new_blocks:
  assumes "block_number e (calls st) = Inr current_block"
    and "current_block \<le> last_block st"
    and "tick e cfg ag st = (r, st')"
  shows "last_block st' = last_block st \<and> onboarded st' = onboarded st \<and>
         (\<exists>cs. calls st' = calls st @ cs \<and> sent cs = [] \<and> fetched cs = [] \<and>
               filter is_ledger_call cs = [BlockNumber])"
proof -
  from assms have "sleep cfg (st\<lparr>calls := calls st @ [BlockNumber]\<rparr>) = (r, st')"
    by (simp add: tick_def Let_def)
  from sleep_calls [OF this] obtain cs where
    "calls st' = calls st @ [BlockNumber] @ cs" "filter is_ledger_call cs = []" "sent cs = []"
    "fetched cs = []" "last_block st' = last_block st" "onboarded st' = onboarded st"
    by auto
  then show ?thesis
    by (intro conjI exI [of _ "[BlockNumber] @ cs"]) (simp_all add: sent_append fetched_append)
qed

theorem tick_without_new_blocks_witness:
  "block_number node_busy (calls st_busy) = Inr 101 \<and> 101 \<le> last_block st_busy \<and>
   tick node_busy cfg0 ag0 st_busy = (None, st_busy2) \<and>
   last_block st_busy2 = last_block st_busy \<and> onboarded st_busy2 = onboarded st_busy \<and>
   (\<exists>cs. calls st_busy2 = calls st_busy @ cs \<and> sent cs = [] \<and> fetched cs = [] \<and>
         filter is_ledger_call cs = [BlockNumber])"
proof -
  have b: "block_number node_busy (calls st_busy) = Inr 101"
    by (simp add: busy_facts st_busy_def)
  have l: "101 \<le> last_block st_busy" by (simp add: st_busy_def)
  from tick_without_new_blocks [OF b l busy_tick2] b l busy_tick2 show ?thesis by simp
qed

text \<open>
  \<^bold>\<open>C7\<close>. When the key service answers with a signature chain of length 1, the script ends
  with an exception, hence with exit status 1, after the two calls to the key service and
  before any call to the node or the contract. The exception is the \<open>IndexError\<close> of line
  38, unless an earlier line raised already (the key or the first signature is not
  hexadecimal, or the key is refused).
\<close>

theorem short_signature_chain_fatal:
  assumes "info e [] = Inr a"
    and "get_key e [Info] ''/groupauth'' ''ethereum'' = Inr result"
    and "length (signature_chain result) = 1"
  shows "\<exists>x. startup e l cfg = (Inl x, [Info, GetKey ''/groupauth'' ''ethereum'']) \<and>
             script n e l cfg = Inl (x, [Info, GetKey ''/groupauth'' ''ethereum'']) \<and>
             exit_status (script n e l cfg) = Some 1 \<and>
             filter is_ledger_call (snd (startup e l cfg)) = [] \<and>
             (x = IndexError \<or>
              parse_derived_key (key result) = Inl x \<or>
              (\<exists>k. parse_derived_key (key result) = Inr k \<and> from_key l k = Inl x) \<or>
              fromhex (replace_0x (hd (signature_chain result))) = Inl x)"
proof -
  from assms(3) obtain s where chain: "signature_chain result = [s]"
    by (cases "signature_chain result") auto
  then have pc: "parse_signature_chain (signature_chain result)
      = (case fromhex (replace_0x s) of Inl x \<Rightarrow> Inl x | Inr app_sig \<Rightarrow> Inl IndexError)"
    by (simp add: parse_signature_chain_def split: sum.splits)
  have "\<exists>x. identity l cfg a result = Inl x \<and>
          (x = IndexError \<or>
           parse_derived_key (key result) = Inl x \<or>
           (\<exists>k. parse_derived_key (key result) = Inr k \<and> from_key l k = Inl x) \<or>
           fromhex (replace_0x s) = Inl x)"
    by (auto simp: identity_def pc split: sum.splits)
  then obtain x where x: "identity l cfg a result = Inl x"
    "x = IndexError \<or> parse_derived_key (key result) = Inl x \<or>
     (\<exists>k. parse_derived_key (key result) = Inr k \<and> from_key l k = Inl x) \<or>
     fromhex (replace_0x s) = Inl x"
    by blast
  from assms(1,2) x(1) have "startup e l cfg = (Inl x, [Info, GetKey ''/groupauth'' ''ethereum''])"
    by (simp add: startup_def Let_def)
  with x(2) chain show ?thesis by (intro exI [of _ x]) (simp add: script_def exit_status_def)
qed

theorem short_signature_chain_fatal_witness:
  "get_key node_short [Info] ''/groupauth'' ''ethereum''
     = Inr \<lparr>key = key0, signature_chain = [app_sig0]\<rparr> \<and>
   length (signature_chain \<lparr>key = key0, signature_chain = [app_sig0]\<rparr>) = 1 \<and>
   startup node_short lib0 cfg0 = (Inl IndexError, [Info, GetKey ''/groupauth'' ''ethereum'']) \<and>
   script 1 node_short lib0 cfg0 = Inl (IndexError, [Info, GetKey ''/groupauth'' ''ethereum'']) \<and>
   exit_status (script 1 node_short lib0 cfg0) = Some 1 \<and>
   filter is_ledger_call (snd (startup node_short lib0 cfg0)) = []"
proof -
  let ?r = "\<lparr>key = key0, signature_chain = [app_sig0]\<rparr>"
  have 1: "info node_short [] = Inr app_id0" by (simp add: node_short_def node_idle_def)
  have 2: "get_key node_short [Info] ''/groupauth'' ''ethereum'' = Inr ?r"
    by (simp add: node_short_def)
  have 3: "length (signature_chain ?r) = 1" by simp
  from short_signature_chain_fatal [OF 1 2 3, of lib0 cfg0 1] obtain x where
    x: "startup node_short lib0 cfg0 = (Inl x, [Info, GetKey ''/groupauth'' ''ethereum''])"
       "script 1 node_short lib0 cfg0 = Inl (x, [Info, GetKey ''/groupauth'' ''ethereum''])"
       "exit_status (script 1 node_short lib0 cfg0) = Some 1"
       "filter is_ledger_call (snd (startup node_short lib0 cfg0)) = []"
       "x = IndexError \<or> parse_derived_key (key ?r) = Inl x \<or>
        (\<exists>k. parse_derived_key (key ?r) = Inr k \<and> from_key lib0 k = Inl x) \<or>
        fromhex (replace_0x (hd (signature_chain ?r))) = Inl x"
    by blast
  from x(5) have "x = IndexError"
    by (auto simp: parse_key0 fromhex_app_sig0 lib0_facts)
  with x(1,2,3,4) 2 3 show ?thesis by simp
qed

text \<open>
  \<^bold>\<open>C8\<close>. The member id is the Keccak hash of the compressed public key and of nothing else:
  two runs that derive the same public key compute the same member id, and the id has 32
  bytes, as every Keccak-256 hash has.
\<close>

theorem member_id_deterministic:
  assumes "identity l cfg a result = Inr ag"
    and "identity l cfg' a' result' = Inr ag'"
    and "\<forall>b. length (keccak l b) = 32"
  shows "my_member_id ag = keccak l (derived_pubkey ag) \<and>
         length (my_member_id ag) = 32 \<and>
         (derived_pubkey ag' = derived_pubkey ag \<longrightarrow> my_member_id ag' = my_member_id ag)"
proof -
  have id: "my_member_id g = keccak l (derived_pubkey g)"
    if "identity l c b r = Inr g" for c b r g
    using that
    by (auto simp: identity_def assemble_def Let_def solidity_keccak_bytes_def
          split: sum.splits prod.splits)
  from id [OF assms(1)] id [OF assms(2)] assms(3) show ?thesis by simp
qed

theorem member_id_deterministic_witness:
  "identity lib0 cfg0 app_id0 result0 = Inr ag0 \<and> identity lib0 cfg0 app_id0 result1 = Inr ag0 \<and>
   (\<forall>b. length (keccak lib0 b) = 32) \<and>
   my_member_id ag0 = keccak lib0 (derived_pubkey ag0) \<and> length (my_member_id ag0) = 32"
proof -
  have 3: "\<forall>b. length (keccak lib0 b) = 32" by (simp add: lib0_facts)
  from member_id_deterministic [OF identity0 identity1 3] identity0 identity1 3
  show ?thesis by simp
qed

text \<open>
  \<^bold>\<open>C9\<close>. A key of more than 32 bytes is not rejected but cut to its first 32 bytes: when
  the library accepts those 32 bytes and the signatures, start-up builds the identity, whose
  derived key is those 32 bytes, whose public key is computed from them, and whose member
  id is the hash of that public key. Any other answer of the key service whose key agrees
  on the first 32 bytes gives the same identity.
\<close>

theorem derived_key_truncated:
  assumes "fromhex (replace_0x (key result)) = Inr bs" and "32 < length bs"
    and "from_key l (take 32 bs) = Inr address"
    and "parse_signature_chain (signature_chain result) = Inr (app_sig, kms_sig)"
    and "to_compressed_bytes l (take 32 bs) = Inr pk"
    and "recover_public_key_from_msg_hash l app_sig (keccak l (encode (''ethereum:'' @ hex pk)))
           = Inr (app_pubkey, app_address)"
    and "fromhex (replace_0x a) = Inr app_id_bytes20"
    and "recover_public_key_from_msg_hash l kms_sig
           (keccak l (encode ''dstack-kms-issued:'' @ app_id_bytes20 @ app_pubkey))
           = Inr kms_signer"
    and "to_checksum_address l (GROUPAUTH_ADDRESS cfg) = Inr contract_address"
    and "fromhex (replace_0x (key result')) = Inr bs'"
    and "take 32 bs' = take 32 bs"
    and "signature_chain result' = signature_chain result"
  shows "parse_derived_key (key result) = Inr (take 32 bs) \<and>
         length (take 32 bs) = 32 \<and>
         (\<exists>ag. identity l cfg a result = Inr ag \<and>
               identity l cfg a result' = Inr ag \<and>
               derived_key ag = take 32 bs \<and>
               derived_pubkey ag = pk \<and>
               my_member_id ag = keccak l pk \<and>
               acct_address ag = address)"
proof -
  from assms(1) have p: "parse_derived_key (key result) = Inr (take 32 bs)"
    by (simp add: parse_derived_key_def)
  from assms(10,11) have p': "parse_derived_key (key result') = Inr (take 32 bs)"
    by (simp add: parse_derived_key_def)
  let ?message_hash = "keccak l (encode ''groupauth-register'')"
  let ?ag = "\<lparr>app_id = a, acct_address = address, derived_key = take 32 bs,
      derived_pubkey = pk, code_id = app_id_bytes20 @ replicate 12 0,
      dstack_proof = (?message_hash,
         unsafe_sign_hash l (take 32 bs)
           (keccak l (0x19 # encode ''Ethereum Signed Message:'' @ 0x0A # encode ''32''
                      @ ?message_hash)),
         app_sig, kms_sig, pk, app_pubkey, ''ethereum''),
      my_member_id = keccak l pk\<rparr>"
  from assms(5-9) have as: "assemble l cfg a (take 32 bs) address app_sig kms_sig = Inr ?ag"
    by (simp add: assemble_def Let_def solidity_keccak_bytes_def)
  from p assms(3,4) as have i: "identity l cfg a result = Inr ?ag"
    by (simp add: identity_def)
  from p' assms(3,4,12) as have i': "identity l cfg a result' = Inr ?ag"
    by (simp add: identity_def)
  from p assms(2) i i' show ?thesis by simp
qed

theorem derived_key_truncated_witness:
  "fromhex (replace_0x (key result1)) = Inr (replicate 32 0x07 @ [0xFF]) \<and>
   32 < length (replicate 32 (0x07 :: byte) @ [0xFF]) \<and>
   parse_derived_key (key result1) = Inr (replicate 32 0x07) \<and>
   identity lib0 cfg0 app_id0 result1 = Inr ag0 \<and>
   identity lib0 cfg0 app_id0 result0 = Inr ag0 \<and>
   derived_key ag0 = replicate 32 0x07 \<and>
   derived_pubkey ag0 = 0x02 # replicate 32 0x07 \<and>
   my_member_id ag0 = keccak lib0 (0x02 # replicate 32 0x07)"
proof -
  let ?bs = "replicate 32 (0x07 :: byte) @ [0xFF]"
  let ?pk = "0x02 # replicate 32 (0x07 :: byte)"
  let ?app_pubkey = "0x03 # keccak lib0 (encode (''ethereum:'' @ hex ?pk))"
  have t: "take 32 ?bs = replicate 32 0x07" by simp
  have 1: "fromhex (replace_0x (key result1)) = Inr ?bs"
    by (simp add: result1_def fromhex_key1)
  have 2: "32 < length ?bs" by simp
  have 3: "from_key lib0 (take 32 ?bs) = Inr address0"
    unfolding t by (simp add: lib0_facts)
  have 4: "parse_signature_chain (signature_chain result1)
             = Inr (replicate 65 0x11, replicate 65 0x22)"
    by (simp add: result1_def parse_chain0)
  have 5: "to_compressed_bytes lib0 (take 32 ?bs) = Inr ?pk"
    unfolding t by (simp add: lib0_facts)
  have 6: "recover_public_key_from_msg_hash lib0 (replicate 65 0x11)
             (keccak lib0 (encode (''ethereum:'' @ hex ?pk))) = Inr (?app_pubkey, address0)"
    by (simp add: lib0_facts(4))
  have 7: "fromhex (replace_0x app_id0) = Inr app_bytes0" by (rule fromhex_app_id0)
  have 8: "recover_public_key_from_msg_hash lib0 (replicate 65 0x22)
             (keccak lib0 (encode ''dstack-kms-issued:'' @ app_bytes0 @ ?app_pubkey))
           = Inr (0x03 # keccak lib0 (encode ''dstack-kms-issued:'' @ app_bytes0 @ ?app_pubkey),
                  address0)"
    by (simp add: lib0_facts(4))
  have 9: "to_checksum_address lib0 (GROUPAUTH_ADDRESS cfg0) = Inr (GROUPAUTH_ADDRESS cfg0)"
    by (simp add: lib0_facts cfg0_def)
  have 10: "fromhex (replace_0x (key result0)) = Inr (replicate 32 0x07)"
    by (simp add: result0_def fromhex_key0)
  have 11: "take 32 (replicate 32 (0x07 :: byte)) = take 32 ?bs" by simp
  have 12: "signature_chain result0 = signature_chain result1"
    by (simp add: result0_def result1_def)
  from derived_key_truncated [OF 1 2 3 4 5 6 7 8 9 10 11 12] obtain ag where
    ag: "identity lib0 cfg0 app_id0 result1 = Inr ag" "identity lib0 cfg0 app_id0 result0 = Inr ag"
        "derived_key ag = take 32 ?bs" "derived_pubkey ag = ?pk"
        "my_member_id ag = keccak lib0 ?pk"
        "parse_derived_key (key result1) = Inr (take 32 ?bs)"
    by blast
  from ag(1) identity1 have "ag = ag0" by simp
  with ag 1 show ?thesis by simp
qed


text \<open>
  \<^bold>\<open>C10\<close>. The dedup set starts empty, and after any number of passes the agent's own member
  id is not in it, so \<open>onboarded_count\<close> does not count the agent.
\<close>

theorem own_id_never_onboarded:
  assumes "initial_state e h = Inr st" and "watcher n e cfg ag st = (r, st')"
  shows "onboarded st = {} \<and> my_member_id ag \<notin> onboarded st' \<and>
         onboarded_count st' = card (onboarded st' - {my_member_id ag})"
proof -
  from assms(1) have empty: "onboarded st = {}"
    by (auto simp: initial_state_def split: sum.splits)
  from watcher_calls [OF assms(2)] empty have "my_member_id ag \<notin> onboarded st'" by auto
  with empty show ?thesis by (simp add: onboarded_count_def)
qed

theorem own_id_never_onboarded_witness:
  "initial_state node_busy [Info, GetKey ''/groupauth'' ''ethereum'', IsMember M0] = Inr st0 \<and>
   watcher 2 node_busy cfg0 ag0 st0 = (None, st_busy2) \<and>
   onboarded st0 = {} \<and> my_member_id ag0 \<notin> onboarded st_busy2 \<and>
   onboarded_count st_busy2 = card (onboarded st_busy2 - {my_member_id ag0})"
  using own_id_never_onboarded [OF busy_initial busy_watcher] busy_initial busy_watcher by simp

end
